theory Spec2Isabelle
  imports
    Main
    "HOL-Library.Sublist"
    "HOL-Library.Multiset"
    "HOL-Library.Log_Nat"
begin

section \<open>JavaScript strings\<close>

text \<open>
  A JavaScript string is a sequence of code units. The model uses \<^typ>\<open>string\<close>, whose
  characters are the code units \<open>0..255\<close> (ASCII and the Latin-1 supplement); \<open>length\<close>
  is the JavaScript \<open>.length\<close> on such a string. Case mapping, the class \<open>\w\<close> and
  the white space of \<open>trim\<close> are written out on that range.
\<close>

definition code_unit :: "char \<Rightarrow> nat" where
  "code_unit c = of_char c"

text \<open>The regular-expression class \<open>\w\<close> (no flags): \<open>[A-Za-z0-9_]\<close>.\<close>

definition is_word_char :: "char \<Rightarrow> bool" where
  "is_word_char c =
     (let n = code_unit c in
        (48 \<le> n \<and> n \<le> 57) \<or> (65 \<le> n \<and> n \<le> 90) \<or> n = 95 \<or> (97 \<le> n \<and> n \<le> 122))"

text \<open>
  \<open>String.prototype.toLowerCase\<close>: \<open>A-Z\<close> and the Latin-1 capitals \<open>U+00C0..U+00DE\<close>
  (but not the multiplication sign \<open>U+00D7\<close>) move up by 32; every other code unit of
  the range is its own lower case.
\<close>

definition toLowerCase_unit :: "char \<Rightarrow> char" where
  "toLowerCase_unit c =
     (let n = code_unit c in
        if (65 \<le> n \<and> n \<le> 90) \<or> (192 \<le> n \<and> n \<le> 222 \<and> n \<noteq> 215)
        then char_of (n + 32) else c)"

definition toLowerCase :: "string \<Rightarrow> string" where
  "toLowerCase s = map toLowerCase_unit s"

text \<open>
  \<open>String.prototype.toUpperCase\<close>: \<open>a-z\<close> and the Latin-1 small letters
  \<open>U+00E0..U+00FE\<close> (but not the division sign \<open>U+00F7\<close>) move down by 32. The upper
  cases of \<open>U+00B5\<close>, \<open>U+00DF\<close> and \<open>U+00FF\<close> lie outside the range and are left as
  they are here; the handler upper-cases only the first code unit of a keyword, which is
  a word character (lemma \<open>potentialKeywords_word\<close> below).
\<close>

definition toUpperCase_unit :: "char \<Rightarrow> char" where
  "toUpperCase_unit c =
     (let n = code_unit c in
        if (97 \<le> n \<and> n \<le> 122) \<or> (224 \<le> n \<and> n \<le> 254 \<and> n \<noteq> 247)
        then char_of (n - 32) else c)"

definition toUpperCase :: "string \<Rightarrow> string" where
  "toUpperCase s = map toUpperCase_unit s"

text \<open>\<open>s.charAt(0)\<close> is the empty string on the empty string; \<open>s.slice(1)\<close> drops one unit.\<close>

definition charAt0 :: "string \<Rightarrow> string" where
  "charAt0 s = take 1 s"

definition slice1 :: "string \<Rightarrow> string" where
  "slice1 s = drop 1 s"

text \<open>The map \<open>k => k.charAt(0).toUpperCase() + k.slice(1)\<close> of the result object.\<close>

definition capitalize :: "string \<Rightarrow> string" where
  "capitalize k = toUpperCase (charAt0 k) @ slice1 k"

text \<open>
  \<open>String.prototype.trim\<close> removes white space and line terminators at both ends:
  TAB, LF, VT, FF, CR, SPACE and NO-BREAK SPACE on this range.
\<close>

definition is_space :: "char \<Rightarrow> bool" where
  "is_space c = (code_unit c \<in> {9, 10, 11, 12, 13, 32, 160})"

definition trim :: "string \<Rightarrow> string" where
  "trim s = rev (dropWhile is_space (rev (dropWhile is_space s)))"

text \<open>\<open>String.prototype.includes\<close>: the argument occurs as a contiguous substring.\<close>

fun string_includes :: "string \<Rightarrow> string \<Rightarrow> bool" where
  "string_includes [] t = (t = [])"
| "string_includes (c # cs) t = (prefix t (c # cs) \<or> string_includes cs t)"

text \<open>
  \<open>Array.prototype.join\<close> with a separator.
\<close>

fun join :: "string \<Rightarrow> string list \<Rightarrow> string" where
  "join sep [] = []"
| "join sep [x] = x"
| "join sep (x # y # ys) = x @ sep @ join sep (y # ys)"

subsection \<open>The regular expression \<open>/\b\w{4,}\b/g\<close>\<close>

text \<open>
  \<open>s.match(/\b\w{4,}\b/g) || []\<close> is the list of all matches, left to right. A match
  starts at a word boundary, takes four or more word characters greedily and must end
  at a word boundary, so the matches are the maximal runs of word characters that have
  length at least 4 (a shorter run matches nowhere: inside it there is no boundary).
  \<open>scan_words\<close> walks the string once, \<open>run\<close> being the run of word characters read
  so far; with no match the source's \<open>|| []\<close> gives the empty list, as here.
\<close>

definition emit :: "string \<Rightarrow> string list" where
  "emit run = (if 4 \<le> length run then [run] else [])"

fun scan_words :: "string \<Rightarrow> string \<Rightarrow> string list" where
  "scan_words run [] = emit run"
| "scan_words run (c # cs) =
     (if is_word_char c then scan_words (run @ [c]) cs else emit run @ scan_words [] cs)"

definition match_words :: "string \<Rightarrow> string list" where
  "match_words s = scan_words [] s"

subsection \<open>Insertion-ordered sets\<close>

text \<open>
  \<open>Array.from(new Set(xs))\<close>: a \<open>Set\<close> keeps its elements in insertion order and ignores
  the insertion of an element it already has.
\<close>

definition Set_add :: "'a list \<Rightarrow> 'a \<Rightarrow> 'a list" where
  "Set_add acc x = (if x \<in> set acc then acc else acc @ [x])"

definition Array_from_Set :: "'a list \<Rightarrow> 'a list" where
  "Array_from_Set xs = foldl Set_add [] xs"

section \<open>The keyword lists of the dynamic handler\<close>

definition commonTechKeywords :: "string list" where
  "commonTechKeywords =
     [''JavaScript'', ''React'', ''Node.js'', ''Python'', ''Java'', ''SQL'', ''Git'',
      ''Cloud'', ''AWS'', ''Docker'', ''Kubernetes'', ''TypeScript'', ''HTML'', ''CSS'',
      ''Agile'', ''DevOps'', ''CI/CD'', ''API'', ''REST'', ''GraphQL'', ''Machine Learning'']"

definition jdWords :: "string \<Rightarrow> string list" where
  "jdWords jobDescription = match_words (toLowerCase jobDescription)"

definition resumeWords :: "string \<Rightarrow> string list" where
  "resumeWords resumeText = match_words (toLowerCase resumeText)"

definition resumeFullText :: "string \<Rightarrow> string" where
  "resumeFullText resumeText = toLowerCase resumeText"

definition potentialKeywords :: "string \<Rightarrow> string list" where
  "potentialKeywords jobDescription =
     Array_from_Set
       (filter (\<lambda>w. w \<in> set (map toLowerCase commonTechKeywords)) (jdWords jobDescription))"

definition matchedKeywords' :: "string \<Rightarrow> string \<Rightarrow> string list" where
  "matchedKeywords' resumeText jobDescription =
     filter (\<lambda>kw. kw \<in> set (resumeWords resumeText)) (potentialKeywords jobDescription)"

definition missingKeywords' :: "string \<Rightarrow> string \<Rightarrow> string list" where
  "missingKeywords' resumeText jobDescription =
     filter (\<lambda>kw. kw \<notin> set (resumeWords resumeText)) (potentialKeywords jobDescription)"

section \<open>JavaScript numbers\<close>

text \<open>
  A JavaScript number is an IEEE 754 binary64 value, and every arithmetic operator
  rounds its exact result to the nearest such value, ties to the even significand. The
  model keeps the exact rational value of a number and rounds after each operation with
  \<open>binary64\<close>: for \<open>2 ^ e \<le> x < 2 ^ (e + 1)\<close> the representable values are the
  multiples of \<open>2 ^ (e - 52)\<close>. The handler computes with zero and with values between
  \<open>1 / 13\<close> and \<open>128\<close> only, far from overflow and from the subnormal range, which are
  therefore not modelled.
\<close>

definition pow2 :: "int \<Rightarrow> rat" where
  "pow2 e = (if 0 \<le> e then 2 ^ nat e else 1 / 2 ^ nat (- e))"

definition exponent :: "rat \<Rightarrow> int" where
  "exponent x =
     (if 1 \<le> x then int (floorlog 2 (nat \<lfloor>x\<rfloor>)) - 1
      else - int (floorlog 2 (nat (\<lceil>1 / x\<rceil> - 1))))"

definition round_ties_even :: "rat \<Rightarrow> int" where
  "round_ties_even q =
     (let n = \<lfloor>q\<rfloor>; r = q - of_int n in
        if r < 1 / 2 then n else if 1 / 2 < r then n + 1 else if even n then n else n + 1)"

definition binary64 :: "rat \<Rightarrow> rat" where
  "binary64 x =
     (if x = 0 then 0
      else let u = pow2 (exponent x - 52) in of_int (round_ties_even (x / u)) * u)"

text \<open>
  \<open>Math.round\<close> gives the nearest integer, the larger one at a tie; its result is exact.
  \<open>Math.min\<close> is \<open>min\<close>.
\<close>

definition Math_round :: "rat \<Rightarrow> int" where
  "Math_round x = \<lfloor>x + 1 / 2\<rfloor>"

section \<open>Section scoring and the final score\<close>

record section_scores =
  experience :: int
  skills :: int
  projects :: int
  roleAlignment :: int

definition sections_experience :: "string list" where
  "sections_experience = [''experience'', ''work history'', ''employment'']"

definition sections_skills :: "string list" where
  "sections_skills = [''skills'', ''technologies'', ''competencies'']"

definition sections_education :: "string list" where
  "sections_education = [''education'', ''academic'', ''degree'']"

definition sections_projects :: "string list" where
  "sections_projects = [''projects'', ''portfolio'']"

text \<open>\<open>synonyms.some(s => resumeFullText.includes(s))\<close>\<close>

definition some_included :: "string list \<Rightarrow> string \<Rightarrow> bool" where
  "some_included synonyms full = list_ex (\<lambda>s. string_includes full s) synonyms"

definition sectionScores' :: "string \<Rightarrow> string \<Rightarrow> section_scores" where
  "sectionScores' resumeText jobDescription =
     \<lparr> experience = (if some_included sections_experience (resumeFullText resumeText) then 25 else 5),
       skills = (if some_included sections_skills (resumeFullText resumeText) then 35 else 10),
       projects = (if some_included sections_projects (resumeFullText resumeText) then 18 else 5),
       roleAlignment = (if 5 < length (matchedKeywords' resumeText jobDescription) then 10 else 5) \<rparr>"

definition keywordScore :: "string \<Rightarrow> string \<Rightarrow> rat" where
  "keywordScore resumeText jobDescription =
     (if 0 < length (potentialKeywords jobDescription)
      then binary64
             (binary64 (of_nat (length (matchedKeywords' resumeText jobDescription)) /
                        of_nat (length (potentialKeywords jobDescription))) * 40)
      else 20)"

definition baseSectionScore :: "string \<Rightarrow> string \<Rightarrow> int" where
  "baseSectionScore resumeText jobDescription =
     (let s = sectionScores' resumeText jobDescription
      in experience s + skills s + projects s + roleAlignment s)"

definition finalAtsScore :: "string \<Rightarrow> string \<Rightarrow> int" where
  "finalAtsScore resumeText jobDescription =
     min (Math_round
            (binary64 (keywordScore resumeText jobDescription +
                       binary64 (of_int (baseSectionScore resumeText jobDescription) *
                                 binary64 (6 / 10)))))
         98"

text \<open>\<open>Math.round(value * (finalAtsScore / 100))\<close> of the displayed breakdown.\<close>

definition scaled :: "int \<Rightarrow> int \<Rightarrow> int" where
  "scaled v final = Math_round (binary64 (of_int v * binary64 (of_int final / 100)))"

section \<open>The result object\<close>

record dynamicResult =
  atsScore :: int
  requiredKeywords :: "string list"
  matchedKeywords :: "string list"
  missingKeywords :: "string list"
  weakKeywords :: "string list"
  sectionScores :: section_scores
  improvementSuggestions :: "string list"
  optimizedBullets :: "string list"

definition suggestion_keywords :: "string list \<Rightarrow> string" where
  "suggestion_keywords missing =
     ''Increase your score by adding these missing keywords: '' @ join '', '' (take 3 missing)"

definition suggestion_experience :: "int \<Rightarrow> string" where
  "suggestion_experience v =
     (if v < 20 then ''Your experience section seems weak or missing. Add more professional history.''
      else ''Strengthen your experience with more quantifiable metrics.'')"

definition suggestion_projects :: "int \<Rightarrow> string" where
  "suggestion_projects v =
     (if v < 10
      then ''Add a '' @ [CHR 0x22] @ ''Projects'' @ [CHR 0x22] @
           '' section to showcase practical applications of your skills.''
      else ''Good use of projects to demonstrate competency.'')"

definition suggestion_contact :: string where
  "suggestion_contact = ''Ensure your contact information is at the very top for better parsing.''"

definition build_dynamicResult :: "string \<Rightarrow> string \<Rightarrow> dynamicResult" where
  "build_dynamicResult resumeText jobDescription =
     (let s = sectionScores' resumeText jobDescription;
          final = finalAtsScore resumeText jobDescription;
          missing = missingKeywords' resumeText jobDescription
      in \<lparr> atsScore = final,
           requiredKeywords = map capitalize (potentialKeywords jobDescription),
           matchedKeywords = map capitalize (matchedKeywords' resumeText jobDescription),
           missingKeywords = map capitalize missing,
           weakKeywords = map capitalize (take 2 missing),
           sectionScores =
             \<lparr> experience = scaled (experience s) final,
               skills = scaled (skills s) final,
               projects = scaled (projects s) final,
               roleAlignment = roleAlignment s \<rparr>,
           improvementSuggestions =
             [suggestion_keywords missing,
              suggestion_experience (experience s),
              suggestion_projects (projects s),
              suggestion_contact],
           optimizedBullets =
             [''Optimized existing experience bullet to include keywords and metrics'',
              ''Rewrote summary to better align with the job requirements'',
              ''Formatted skills section for better ATS readability''] \<rparr>)"

section \<open>The callable handlers\<close>

text \<open>
  A field of \<open>request.data\<close> is any JSON value; \<open>!v\<close> is \<open>\<not> truthy v\<close> and
  \<open>typeof v === 'string'\<close> is \<open>is_string v\<close>.
\<close>

datatype js_value =
  JUndefined | JNull | JBoolean bool | JNumber rat | JString string | JObject

fun truthy :: "js_value \<Rightarrow> bool" where
  "truthy JUndefined = False"
| "truthy JNull = False"
| "truthy (JBoolean b) = b"
| "truthy (JNumber n) = (n \<noteq> 0)"
| "truthy (JString s) = (s \<noteq> [])"
| "truthy JObject = True"

fun is_string :: "js_value \<Rightarrow> bool" where
  "is_string (JString s) = True"
| "is_string v = False"

fun string_of :: "js_value \<Rightarrow> string" where
  "string_of (JString s) = s"
| "string_of v = []"

record request_data =
  resumeText :: js_value
  jobDescription :: js_value
  resumeId :: js_value

record request =
  auth :: "string option"
  data :: request_data

datatype error_code = unauthenticated | invalid_argument

datatype https_error = HttpsError error_code string

text \<open>
  What the handler reads from outside: the clock (\<open>new Date().toISOString()\<close>) and the
  outcome of the Firestore write (the new document's id, or \<open>None\<close> when the write
  throws, which the handler catches and logs).
\<close>

record environment =
  clock :: string
  firestore_add :: "string option"

record metadata =
  userId :: string
  metadata_resumeId :: js_value
  analyzedAt :: string
  model :: string

record finalResponse = dynamicResult +
  success :: bool
  metadata :: metadata
  analysisId :: "string option"

text \<open>
  The dynamic heuristic handler: authentication, validation, the result object, then the
  response (the result's fields spread into it) with the id of the stored analysis when
  the write succeeded. The two-second delay has no effect on the value; the document
  handed to Firestore and the constant \<open>note\<close> of the metadata are left out.
\<close>

definition analyzeResumeHandler :: "environment \<Rightarrow> request \<Rightarrow> https_error + finalResponse" where
  "analyzeResumeHandler env request =
     (case auth request of
        None \<Rightarrow> Inl (HttpsError unauthenticated ''You must be logged in to analyze resumes'')
      | Some uid \<Rightarrow>
          let rt = resumeText (data request); jd = jobDescription (data request);
              rid = resumeId (data request)
          in if \<not> truthy rt \<or> \<not> is_string rt \<or> length (trim (string_of rt)) < 50
             then Inl (HttpsError invalid_argument ''Resume text is missing or too short.'')
             else if \<not> truthy jd \<or> \<not> is_string jd \<or> length (trim (string_of jd)) < 20
             then Inl (HttpsError invalid_argument ''Job description is missing or too short.'')
             else Inr (dynamicResult.extend
                         (build_dynamicResult (string_of rt) (string_of jd))
                         (finalResponse.fields True
                            \<lparr> userId = uid,
                              metadata_resumeId = (if truthy rid then rid else JNull),
                              analyzedAt = clock env,
                              model = ''dynamic-heuristic-engine'' \<rparr>
                            (firestore_add env))))"

text \<open>
  The OpenAI-backed handler up to its log line \<open>Input validated\<close>: the value \<open>Inr\<close> is
  the pair of texts with which it goes on to build the prompt.
\<close>

definition analyzeResumeHandler_openai_validation :: "request \<Rightarrow> https_error + string \<times> string" where
  "analyzeResumeHandler_openai_validation request =
     (case auth request of
        None \<Rightarrow> Inl (HttpsError unauthenticated ''You must be logged in to analyze resumes'')
      | Some uid \<Rightarrow>
          let rt = resumeText (data request); jd = jobDescription (data request)
          in if \<not> truthy rt \<or> \<not> is_string rt
             then Inl (HttpsError invalid_argument ''Resume text is required and must be a string'')
             else if length (trim (string_of rt)) < 100
             then Inl (HttpsError invalid_argument ''Resume text is too short (minimum 100 characters)'')
             else if 50000 < length (string_of rt)
             then Inl (HttpsError invalid_argument ''Resume text is too long (maximum 50,000 characters)'')
             else if \<not> truthy jd \<or> \<not> is_string jd
             then Inl (HttpsError invalid_argument ''Job description is required and must be a string'')
             else if length (trim (string_of jd)) < 50
             then Inl (HttpsError invalid_argument ''Job description is too short (minimum 50 characters)'')
             else if 20000 < length (string_of jd)
             then Inl (HttpsError invalid_argument ''Job description is too long (maximum 20,000 characters)'')
             else Inr (string_of rt, string_of jd))"

section \<open>Auxiliary notions for the statements\<close>

text \<open>
  The position of the first occurrence of \<open>a\<close> in \<open>xs\<close> (JavaScript's \<open>indexOf\<close> when
  \<open>a\<close> occurs; the length of \<open>xs\<close> otherwise).
\<close>

definition first_index :: "'a list \<Rightarrow> 'a \<Rightarrow> nat" where
  "first_index xs a = length (takeWhile (\<lambda>x. x \<noteq> a) xs)"

text \<open>
  A bound on the rounding error of one binary64 operation whose exact result lies in
  \<open>[0, 128]\<close>: half a unit in the last place of the binade \<open>[64, 128)\<close>.
\<close>

definition rounding_unit :: rat where
  "rounding_unit = 1 / 2 ^ 46"

text \<open>
  The entries of the lower-cased vocabulary that the tokenizer can produce at all.
\<close>

definition vocabulary_tokens :: "string list" where
  "vocabulary_tokens =
     filter (\<lambda>w. 4 \<le> length w \<and> list_all is_word_char w) (map toLowerCase commonTechKeywords)"

text \<open>
  The score as the specification writes it, in exact arithmetic:
  \<open>(|matched| / |keywords|) * 40\<close>, or 20 without keywords, plus
  \<open>baseSectionScore * 0.6\<close>; the final score rounds it half up.
\<close>

definition exact_score :: "nat \<Rightarrow> nat \<Rightarrow> int \<Rightarrow> rat" where
  "exact_score matched required base =
     (if 0 < required then of_nat matched / of_nat required * 40 else 20) + of_int base * (6 / 10)"

subsection \<open>A sample request\<close>

definition example_resume :: string where
  "example_resume =
     ''Jane Doe. Experience: five years of Python services. Skills: testing. Projects: a compiler.''"

definition example_job :: string where
  "example_job =
     ''Engineer with React, Python, Docker, Kubernetes and GraphQL knowledge wanted.''"

definition example_request :: request where
  "example_request =
     \<lparr> auth = Some ''user-1'',
       data = \<lparr> resumeText = JString example_resume,
                jobDescription = JString example_job,
                resumeId = JUndefined \<rparr> \<rparr>"

definition example_environment :: environment where
  "example_environment = \<lparr> clock = ''2024-01-01T00:00:00.000Z'', firestore_add = Some ''doc-1'' \<rparr>"

definition example_response :: finalResponse where
  "example_response =
     dynamicResult.extend (build_dynamicResult example_resume example_job)
       (finalResponse.fields True
          \<lparr> userId = ''user-1'', metadata_resumeId = JNull,
            analyzedAt = ''2024-01-01T00:00:00.000Z'', model = ''dynamic-heuristic-engine'' \<rparr>
          (Some ''doc-1''))"

text \<open>A job description that repeats keywords and names vocabulary entries that are no tokens.\<close>

definition repeating_job :: string where
  "repeating_job = ''Python and React; python, SQL, Git, Node.js, CI/CD, REST API and react again''"

text \<open>The same texts sent by another user, at another time, with the write failing.\<close>

definition other_request :: request where
  "other_request =
     \<lparr> auth = Some ''user-2'',
       data = \<lparr> resumeText = JString example_resume,
                jobDescription = JString example_job,
                resumeId = JString ''resume-7'' \<rparr> \<rparr>"

definition other_environment :: environment where
  "other_environment = \<lparr> clock = ''2025-06-30T12:00:00.000Z'', firestore_add = None \<rparr>"

definition other_response :: finalResponse where
  "other_response =
     dynamicResult.extend (build_dynamicResult example_resume example_job)
       (finalResponse.fields True
          \<lparr> userId = ''user-2'', metadata_resumeId = JString ''resume-7'',
            analyzedAt = ''2025-06-30T12:00:00.000Z'', model = ''dynamic-heuristic-engine'' \<rparr>
          None)"

text \<open>Requests at the length bounds.\<close>

definition request_of_texts :: "string \<Rightarrow> string \<Rightarrow> request" where
  "request_of_texts rt jd =
     \<lparr> auth = Some ''user-1'',
       data = \<lparr> resumeText = JString rt, jobDescription = JString jd, resumeId = JUndefined \<rparr> \<rparr>"


section \<open>Strings, tokens and keyword lists: basic facts\<close>

lemma emit_word:
  "w \<in> set (emit run) \<Longrightarrow> w = run \<and> 4 \<le> length run"
  by (auto simp: emit_def split: if_splits)

lemma scan_words_run:
  "w \<in> set (scan_words run s) \<Longrightarrow> list_all is_word_char run \<Longrightarrow>
     list_all is_word_char w \<and> 4 \<le> length w \<and>
     (\<exists>pre post. run @ s = pre @ w @ post \<and>
        (pre = [] \<or> \<not> is_word_char (last pre)) \<and>
        (post = [] \<or> \<not> is_word_char (hd post)))"
proof (induction run s rule: scan_words.induct)
  case (1 run)
  then have "w = run" "4 \<le> length run" using emit_word by auto
  with 1 show ?case by (intro conjI exI[of _ "[]"]) auto
next
  case (2 run c cs)
  show ?case
  proof (cases "is_word_char c")
    case True
    with 2 have "w \<in> set (scan_words (run @ [c]) cs)" "list_all is_word_char (run @ [c])"
      by auto
    from "2.IH"(1)[OF True this] show ?thesis by simp
  next
    case False
    with 2 have "w \<in> set (emit run) \<or> w \<in> set (scan_words [] cs)" by auto
    then show ?thesis
    proof
      assume "w \<in> set (emit run)"
      then have w: "w = run" "4 \<le> length run" using emit_word by auto
      have "run @ c # cs = [] @ w @ (c # cs)" using w by simp
      with w 2(4) False show ?thesis
        by (intro conjI exI[of _ "[]"] exI[of _ "c # cs"]) auto
    next
      assume a: "w \<in> set (scan_words [] cs)"
      from "2.IH"(2)[OF False a] obtain pre post where
        p: "list_all is_word_char w" "4 \<le> length w" "cs = pre @ w @ post"
           "pre = [] \<or> \<not> is_word_char (last pre)" "post = [] \<or> \<not> is_word_char (hd post)"
        by auto
      have "run @ c # cs = (run @ c # pre) @ w @ post" using p by simp
      moreover have "\<not> is_word_char (last (run @ c # pre))" using p(4) False by auto
      ultimately show ?thesis using p by blast
    qed
  qed
qed

lemma match_words_token:
  assumes "w \<in> set (match_words s)"
  shows "list_all is_word_char w" "4 \<le> length w"
    "\<exists>pre post. s = pre @ w @ post \<and>
        (pre = [] \<or> \<not> is_word_char (last pre)) \<and>
        (post = [] \<or> \<not> is_word_char (hd post))"
  using scan_words_run[of w "[]" s] assms by (auto simp: match_words_def)

text \<open>Conversely, every maximal run of at least 4 word characters is a match.\<close>

lemma scan_words_all_word:
  "list_all is_word_char u \<Longrightarrow> scan_words run u = emit (run @ u)"
  by (induction u arbitrary: run) simp_all

lemma scan_words_word_then:
  "list_all is_word_char u \<Longrightarrow> \<not> is_word_char c \<Longrightarrow>
     scan_words run (u @ c # s) = emit (run @ u) @ scan_words [] s"
  by (induction u arbitrary: run) simp_all

lemma scan_words_after_nonword:
  "s1 \<noteq> [] \<Longrightarrow> \<not> is_word_char (last s1) \<Longrightarrow>
     set (scan_words [] s2) \<subseteq> set (scan_words run (s1 @ s2))"
proof (induction s1 arbitrary: run)
  case Nil
  then show ?case by simp
next
  case (Cons c s1)
  show ?case
  proof (cases "s1 = []")
    case True
    with Cons.prems show ?thesis by auto
  next
    case False
    with Cons.prems have "\<not> is_word_char (last s1)" by simp
    from Cons.IH[OF False this] show ?thesis by auto
  qed
qed

lemma match_words_complete:
  assumes "s = pre @ w @ post" "list_all is_word_char w" "4 \<le> length w"
    and "pre = [] \<or> \<not> is_word_char (last pre)" "post = [] \<or> \<not> is_word_char (hd post)"
  shows "w \<in> set (match_words s)"
proof -
  have "w \<in> set (scan_words [] (w @ post))"
  proof (cases post)
    case Nil
    then show ?thesis using assms(2,3) by (simp add: scan_words_all_word emit_def)
  next
    case (Cons c p)
    with assms(5) have "\<not> is_word_char c" by simp
    then show ?thesis using assms(2,3) Cons by (simp add: scan_words_word_then emit_def)
  qed
  then show ?thesis
    using assms(1,4) scan_words_after_nonword[of pre "w @ post" "[]"]
    by (cases "pre = []") (auto simp: match_words_def)
qed

lemma Array_from_Set_snoc:
  "Array_from_Set (xs @ [x]) = Set_add (Array_from_Set xs) x"
  by (simp add: Array_from_Set_def)

lemma Array_from_Set_rev_remdups:
  "Array_from_Set xs = rev (remdups (rev xs))"
  by (induction xs rule: rev_induct)
     (auto simp: Array_from_Set_snoc Set_add_def, simp add: Array_from_Set_def)

lemma set_Array_from_Set [simp]: "set (Array_from_Set xs) = set xs"
  by (simp add: Array_from_Set_rev_remdups)

lemma distinct_Array_from_Set [simp]: "distinct (Array_from_Set xs)"
  by (simp add: Array_from_Set_rev_remdups)


lemma first_index_less: "a \<in> set xs \<Longrightarrow> first_index xs a < length xs"
  unfolding first_index_def by (induction xs) auto

lemma first_index_append1: "a \<in> set xs \<Longrightarrow> first_index (xs @ ys) a = first_index xs a"
  unfolding first_index_def by (induction xs) auto

lemma first_index_append2: "a \<notin> set xs \<Longrightarrow> first_index (xs @ [a]) a = length xs"
  unfolding first_index_def by (induction xs) auto

lemma Array_from_Set_order:
  "sorted_wrt (\<lambda>a b. first_index xs a < first_index xs b) (Array_from_Set xs)"
proof (induction xs rule: rev_induct)
  case Nil
  show ?case by (simp add: Array_from_Set_def)
next
  case (snoc x xs)
  have mono: "sorted_wrt (\<lambda>a b. first_index (xs @ [x]) a < first_index (xs @ [x]) b) (Array_from_Set xs)"
    by (rule sorted_wrt_mono_rel[OF _ snoc.IH]) (simp add: first_index_append1)
  show ?case
  proof (cases "x \<in> set xs")
    case True
    then show ?thesis using mono by (simp add: Array_from_Set_snoc Set_add_def)
  next
    case False
    have "\<forall>a\<in>set xs. first_index (xs @ [x]) a < first_index (xs @ [x]) x"
      using False by (simp add: first_index_append1 first_index_append2 first_index_less)
    then show ?thesis using mono False
      by (simp add: Array_from_Set_snoc Set_add_def sorted_wrt_append)
  qed
qed

lemma handler_Inr:
  assumes "analyzeResumeHandler env request = Inr response"
  obtains uid rt jd where
    "auth request = Some uid"
    "resumeText (data request) = JString rt" "jobDescription (data request) = JString jd"
    "50 \<le> length (trim rt)" "20 \<le> length (trim jd)"
    "dynamicResult.truncate response = build_dynamicResult rt jd"
proof -
  from assms obtain uid where u: "auth request = Some uid"
    by (auto simp: analyzeResumeHandler_def split: option.splits)
  from assms u obtain rt where r: "resumeText (data request) = JString rt" "50 \<le> length (trim rt)"
    by (cases "resumeText (data request)")
       (auto simp: analyzeResumeHandler_def Let_def split: if_splits)
  from assms u r obtain jd where j: "jobDescription (data request) = JString jd" "20 \<le> length (trim jd)"
    by (cases "jobDescription (data request)")
       (auto simp: analyzeResumeHandler_def Let_def split: if_splits)
  from assms u r j have "dynamicResult.truncate response = build_dynamicResult rt jd"
    by (auto simp: analyzeResumeHandler_def Let_def dynamicResult.truncate_def dynamicResult.extend_def
             split: if_splits)
  with u r j that show thesis by blast
qed

lemma truncate_fields:
  "atsScore (dynamicResult.truncate r) = atsScore r"
  "requiredKeywords (dynamicResult.truncate r) = requiredKeywords r"
  "matchedKeywords (dynamicResult.truncate r) = matchedKeywords r"
  "missingKeywords (dynamicResult.truncate r) = missingKeywords r"
  "weakKeywords (dynamicResult.truncate r) = weakKeywords r"
  "sectionScores (dynamicResult.truncate r) = sectionScores r"
  "improvementSuggestions (dynamicResult.truncate r) = improvementSuggestions r"
  "optimizedBullets (dynamicResult.truncate r) = optimizedBullets r"
  by (simp_all add: dynamicResult.truncate_def)

lemma length_capitalize [simp]: "length (capitalize k) = length k"
  by (cases k) (simp_all add: capitalize_def toUpperCase_def charAt0_def slice1_def)

lemma toUpperCase_unit_word: "is_word_char c \<Longrightarrow> is_word_char (toUpperCase_unit c)"
  by (auto simp: is_word_char_def toUpperCase_unit_def code_unit_def Let_def)

lemma capitalize_word: "list_all is_word_char k \<Longrightarrow> list_all is_word_char (capitalize k)"
  by (cases k) (simp_all add: capitalize_def toUpperCase_def charAt0_def slice1_def toUpperCase_unit_word)

lemma vocabulary_capitalize_distinct:
  "distinct (map capitalize (map toLowerCase commonTechKeywords))"
  by code_simp

lemma capitalize_inj_on_vocabulary:
  "inj_on capitalize (set (map toLowerCase commonTechKeywords))"
  using vocabulary_capitalize_distinct by (simp only: distinct_map)

lemma potentialKeywords_set:
  "set (potentialKeywords jd) =
     {w \<in> set (jdWords jd). w \<in> set (map toLowerCase commonTechKeywords)}"
  by (auto simp: potentialKeywords_def)

lemma potentialKeywords_distinct [simp]: "distinct (potentialKeywords jd)"
  by (simp add: potentialKeywords_def)

lemma potentialKeywords_word:
  assumes "w \<in> set (potentialKeywords jd)"
  shows "list_all is_word_char w" "4 \<le> length w"
  using assms match_words_token[of w "toLowerCase jd"]
  by (auto simp: potentialKeywords_set jdWords_def)

lemma keywords_partition_mset:
  "mset (matchedKeywords' rt jd) + mset (missingKeywords' rt jd) = mset (potentialKeywords jd)"
  by (simp add: matchedKeywords'_def missingKeywords'_def)

lemma build_fields:
  "atsScore (build_dynamicResult rt jd) = finalAtsScore rt jd"
  "requiredKeywords (build_dynamicResult rt jd) = map capitalize (potentialKeywords jd)"
  "matchedKeywords (build_dynamicResult rt jd) = map capitalize (matchedKeywords' rt jd)"
  "missingKeywords (build_dynamicResult rt jd) = map capitalize (missingKeywords' rt jd)"
  "weakKeywords (build_dynamicResult rt jd) = map capitalize (take 2 (missingKeywords' rt jd))"
  "experience (sectionScores (build_dynamicResult rt jd)) =
     scaled (experience (sectionScores' rt jd)) (finalAtsScore rt jd)"
  "skills (sectionScores (build_dynamicResult rt jd)) =
     scaled (skills (sectionScores' rt jd)) (finalAtsScore rt jd)"
  "projects (sectionScores (build_dynamicResult rt jd)) =
     scaled (projects (sectionScores' rt jd)) (finalAtsScore rt jd)"
  "roleAlignment (sectionScores (build_dynamicResult rt jd)) = roleAlignment (sectionScores' rt jd)"
  "improvementSuggestions (build_dynamicResult rt jd) =
     [suggestion_keywords (missingKeywords' rt jd),
      suggestion_experience (experience (sectionScores' rt jd)),
      suggestion_projects (projects (sectionScores' rt jd)),
      suggestion_contact]"
  "optimizedBullets (build_dynamicResult rt jd) =
     [''Optimized existing experience bullet to include keywords and metrics'',
      ''Rewrote summary to better align with the job requirements'',
      ''Formatted skills section for better ATS readability'']"
  by (simp_all add: build_dynamicResult_def Let_def)

lemma response_fields:
  assumes "dynamicResult.truncate response = build_dynamicResult rt jd"
  shows "atsScore response = finalAtsScore rt jd"
    "requiredKeywords response = map capitalize (potentialKeywords jd)"
    "matchedKeywords response = map capitalize (matchedKeywords' rt jd)"
    "missingKeywords response = map capitalize (missingKeywords' rt jd)"
    "weakKeywords response = map capitalize (take 2 (missingKeywords' rt jd))"
    "sectionScores response = sectionScores (build_dynamicResult rt jd)"
    "improvementSuggestions response = improvementSuggestions (build_dynamicResult rt jd)"
    "optimizedBullets response = optimizedBullets (build_dynamicResult rt jd)"
  using truncate_fields[of response, unfolded assms] by (simp_all add: build_fields)


lemma string_includes_sublist: "string_includes s t = sublist t s"
  by (induction s) (simp_all add: sublist_Cons_right)

lemma string_includes_iff: "string_includes s t \<longleftrightarrow> (\<exists>pre post. s = pre @ t @ post)"
  by (simp add: string_includes_sublist sublist_def)

lemma some_included_iff:
  "some_included synonyms full \<longleftrightarrow> (\<exists>s\<in>set synonyms. \<exists>pre post. full = pre @ s @ post)"
  by (simp add: some_included_def list_ex_iff string_includes_iff)

lemma length_trim_le: "length (trim s) \<le> length s"
proof -
  have "length (trim s) \<le> length (dropWhile is_space s)"
    unfolding trim_def using length_dropWhile_le[of is_space "rev (dropWhile is_space s)"] by simp
  also have "\<dots> \<le> length s" by (rule length_dropWhile_le)
  finally show ?thesis .
qed

lemma trim_id:
  assumes "s \<noteq> []" "\<not> is_space (hd s)" "\<not> is_space (last s)"
  shows "trim s = s"
proof -
  from assms have "dropWhile is_space s = s" by (cases s) auto
  moreover from assms have "dropWhile is_space (rev s) = rev s"
    by (cases "rev s") (auto simp: hd_rev)
  ultimately show ?thesis by (simp add: trim_def)
qed

lemma openai_accepts_iff:
  "analyzeResumeHandler_openai_validation request = Inr (rt, jd) \<longleftrightarrow>
     auth request \<noteq> None \<and>
     resumeText (data request) = JString rt \<and> jobDescription (data request) = JString jd \<and>
     100 \<le> length (trim rt) \<and> length rt \<le> 50000 \<and>
     50 \<le> length (trim jd) \<and> length jd \<le> 20000"
proof (cases "auth request")
  case None
  then show ?thesis by (simp add: analyzeResumeHandler_openai_validation_def)
next
  case (Some uid)
  have e: "trim [] = []" by (simp add: trim_def)
  show ?thesis
    by (cases "resumeText (data request)"; cases "jobDescription (data request)")
       (auto simp: analyzeResumeHandler_openai_validation_def Some Let_def e)
qed

lemma dynamic_accepts_iff:
  "(\<exists>response. analyzeResumeHandler env request = Inr response) \<longleftrightarrow>
     auth request \<noteq> None \<and>
     (\<exists>rt jd. resumeText (data request) = JString rt \<and> jobDescription (data request) = JString jd \<and>
        50 \<le> length (trim rt) \<and> 20 \<le> length (trim jd))"
proof (cases "auth request")
  case None
  then show ?thesis by (simp add: analyzeResumeHandler_def)
next
  case (Some uid)
  have e: "trim [] = []" by (simp add: trim_def)
  show ?thesis
    by (cases "resumeText (data request)"; cases "jobDescription (data request)")
       (auto simp: analyzeResumeHandler_def Some Let_def e)
qed

section \<open>Rounding: error bounds\<close>

lemma pow2_powi: "pow2 e = 2 powi e"
  by (simp add: pow2_def power_int_def inverse_eq_divide power_one_over)

lemma pow2_pos [simp]: "0 < pow2 e"
  by (simp add: pow2_powi)

lemma pow2_diff: "pow2 (a - b) = pow2 a / pow2 b"
  by (simp add: pow2_powi power_int_diff)

lemma pow2_52: "pow2 52 = 2 ^ 52"
  by (simp add: pow2_def)

lemma exponent_le:
  assumes "0 < x"
  shows "pow2 (exponent x) \<le> x"
proof (cases "1 \<le> x")
  case True
  define n where "n = nat \<lfloor>x\<rfloor>"
  have n: "0 < n" "of_nat n \<le> x" using True by (simp_all add: n_def le_floor_iff)
  from n have "floorlog 2 n \<noteq> 0" by (simp add: floorlog_eq_zero_iff)
  then have "exponent x = int (floorlog 2 n - 1)"
    using True by (simp add: exponent_def n_def)
  then have "pow2 (exponent x) = 2 ^ (floorlog 2 n - 1)" by (simp add: pow2_def)
  also have "\<dots> = of_nat (2 ^ (floorlog 2 n - 1))" by simp
  also have "\<dots> \<le> of_nat n"
    using floorlog_bounds[of n 2] n(1) by (simp only: of_nat_le_iff)
  finally show ?thesis using n(2) by simp
next
  case False
  define y where "y = 1 / x"
  define m where "m = nat (\<lceil>y\<rceil> - 1)"
  define k where "k = floorlog 2 m"
  from False assms have y: "1 < y" by (simp add: y_def)
  then have c: "2 \<le> \<lceil>y\<rceil>" by (simp add: le_ceiling_iff)[1]
  then have m: "0 < m" "int m = \<lceil>y\<rceil> - 1" by (simp_all add: m_def)
  have "m < 2 ^ k" using floorlog_bounds[of m 2] m(1) by (simp add: k_def)
  then have "int m < 2 ^ k" by (metis of_nat_less_iff of_nat_numeral of_nat_power)
  then have "\<lceil>y\<rceil> \<le> 2 ^ k" using m(2) by simp
  then have "y \<le> of_int (2 ^ k)" by (simp only: ceiling_le_iff)
  then have yk: "y \<le> 2 ^ k" by simp
  have "exponent x = - int k" using False by (simp add: exponent_def k_def m_def y_def)
  then have "pow2 (exponent x) = 1 / 2 ^ k" by (simp add: pow2_def)
  also have "\<dots> \<le> 1 / y" using yk y by (simp add: frac_le)
  also have "\<dots> = x" by (simp add: y_def)
  finally show ?thesis .
qed

lemma round_ties_even_error: "\<bar>of_int (round_ties_even q) - q\<bar> \<le> 1 / 2"
proof -
  have "of_int \<lfloor>q\<rfloor> \<le> q" "q < of_int \<lfloor>q\<rfloor> + 1" by linarith+
  then show ?thesis
    by (auto simp: round_ties_even_def Let_def)
qed

lemma binary64_error:
  assumes "0 \<le> x"
  shows "\<bar>binary64 x - x\<bar> \<le> x / 2 ^ 53"
proof (cases "x = 0")
  case True
  then show ?thesis by (simp add: binary64_def)
next
  case False
  with assms have x: "0 < x" by simp
  define u where "u = pow2 (exponent x - 52)"
  have u: "0 < u" "u = pow2 (exponent x) / 2 ^ 52"
    by (simp_all add: u_def pow2_diff pow2_52)
  have "binary64 x - x = (of_int (round_ties_even (x / u)) - x / u) * u"
    using False u(1) by (simp add: binary64_def u_def[symmetric] Let_def algebra_simps)
  then have "\<bar>binary64 x - x\<bar> = \<bar>of_int (round_ties_even (x / u)) - x / u\<bar> * u"
    using u(1) by (simp add: abs_mult)
  also have "\<dots> \<le> 1 / 2 * u"
    using round_ties_even_error[of "x / u"] u(1) by (intro mult_right_mono) simp_all
  also have "\<dots> = pow2 (exponent x) / 2 ^ 53" by (simp add: u(2))
  also have "\<dots> \<le> x / 2 ^ 53"
    using exponent_le[OF x] by (simp add: divide_right_mono)
  finally show ?thesis .
qed

text \<open>The significand of a rounded value has 53 bits.\<close>

lemma pow2_Suc: "pow2 (e + 1) = 2 * pow2 e"
  by (simp add: pow2_powi power_int_add)

lemma pow2_neg: "pow2 (- int j) = 1 / 2 ^ j"
  by (simp add: pow2_powi power_int_minus inverse_eq_divide)

lemma exponent_less:
  assumes "0 < x"
  shows "x < pow2 (exponent x + 1)"
proof (cases "1 \<le> x")
  case True
  define n where "n = nat \<lfloor>x\<rfloor>"
  have n: "0 < n" "x < of_nat n + 1" using True by (simp_all add: n_def le_floor_iff) linarith
  from n have "floorlog 2 n \<noteq> 0" by (simp add: floorlog_eq_zero_iff)
  then have "exponent x + 1 = int (floorlog 2 n)"
    using True by (simp add: exponent_def n_def)
  then have p: "pow2 (exponent x + 1) = 2 ^ floorlog 2 n" by (simp add: pow2_def)
  have "n < 2 ^ floorlog 2 n" using floorlog_bounds[of n 2] n(1) by simp
  then have "n + 1 \<le> 2 ^ floorlog 2 n" by simp
  then have "(of_nat (n + 1) :: rat) \<le> of_nat (2 ^ floorlog 2 n)" by (simp only: of_nat_le_iff)
  then have "of_nat n + 1 \<le> (2 :: rat) ^ floorlog 2 n" by simp
  with n(2) show ?thesis unfolding p by linarith
next
  case False
  define y where "y = 1 / x"
  define m where "m = nat (\<lceil>y\<rceil> - 1)"
  define k where "k = floorlog 2 m"
  from False assms have y: "1 < y" by (simp add: y_def)
  then have c: "2 \<le> \<lceil>y\<rceil>" by (simp add: le_ceiling_iff)
  then have m: "0 < m" "int m = \<lceil>y\<rceil> - 1" by (simp_all add: m_def)
  from m(1) have "k \<noteq> 0" by (simp add: k_def floorlog_eq_zero_iff)
  then have k: "0 < k" by simp
  have "2 ^ (k - 1) \<le> m" using floorlog_bounds[of m 2] m(1) by (simp add: k_def)
  then have "(2::int) ^ (k - 1) \<le> int m" by (metis of_nat_le_iff of_nat_numeral of_nat_power)
  then have "(2::int) ^ (k - 1) < \<lceil>y\<rceil>" using m(2) by simp
  then have "of_int (2 ^ (k - 1)) < y" by (simp only: less_ceiling_iff)
  then have yk: "2 ^ (k - 1) < y" by simp
  have "exponent x + 1 = - int (k - 1)"
    using False k by (simp add: exponent_def k_def m_def y_def)
  then have "pow2 (exponent x + 1) = 1 / 2 ^ (k - 1)" by (simp only: pow2_neg)
  moreover have "1 / y < 1 / 2 ^ (k - 1)" using yk by (simp add: frac_less2)
  moreover have "1 / y = x" by (simp add: y_def)
  ultimately show ?thesis by simp
qed

lemma round_ties_even_mono:
  assumes "of_int a \<le> q" "q \<le> of_int b"
  shows "a \<le> round_ties_even q" "round_ties_even q \<le> b"
proof -
  have f: "a \<le> \<lfloor>q\<rfloor>" "\<lfloor>q\<rfloor> \<le> b" using assms by (simp_all add: le_floor_iff floor_le_iff)
  have g: "\<lfloor>q\<rfloor> = b \<Longrightarrow> q - of_int \<lfloor>q\<rfloor> = 0" using assms(2) by linarith
  show "a \<le> round_ties_even q" using f(1) by (simp add: round_ties_even_def Let_def)
  show "round_ties_even q \<le> b" using f(2) g
    by (cases "\<lfloor>q\<rfloor> = b") (auto simp: round_ties_even_def Let_def)
qed

lemma binary64_significand:
  assumes "0 < x"
  shows "\<exists>n. binary64 x = of_int n * pow2 (exponent x - 52) \<and> 2 ^ 52 \<le> n \<and> n \<le> 2 ^ 53"
proof -
  define u where "u = pow2 (exponent x - 52)"
  have u: "0 < u" "pow2 (exponent x) = 2 ^ 52 * u" "pow2 (exponent x + 1) = 2 ^ 53 * u"
    by (simp_all add: u_def pow2_diff pow2_52 pow2_Suc)
  have "2 ^ 52 * u \<le> x" "x < 2 ^ 53 * u"
    using exponent_le[OF assms] exponent_less[OF assms] u by simp_all
  then have "of_int (2 ^ 52) \<le> x / u" "x / u \<le> of_int (2 ^ 53)"
    using u(1) by (simp_all add: field_simps)
  from round_ties_even_mono[OF this]
  have "2 ^ 52 \<le> round_ties_even (x / u)" "round_ties_even (x / u) \<le> 2 ^ 53" .
  moreover have "binary64 x = of_int (round_ties_even (x / u)) * u"
    using assms by (simp add: binary64_def u_def Let_def)
  ultimately show ?thesis unfolding u_def by blast
qed

lemma binary64_near:
  assumes "0 \<le> x" "x \<le> 128"
  shows "\<bar>binary64 x - x\<bar> \<le> 1 / 2 ^ 46"
proof -
  have "\<bar>binary64 x - x\<bar> \<le> x / 2 ^ 53" by (rule binary64_error[OF assms(1)])
  also have "\<dots> \<le> 128 / 2 ^ 53" using assms(2) by (simp add: divide_right_mono)
  also have "\<dots> = 1 / 2 ^ 46" by simp
  finally show ?thesis .
qed

lemma scale_abs_less:
  fixes y q N c :: rat
  assumes q: "0 < q" and y: "\<bar>y - N / q\<bar> < c / q"
  shows "N - c < y * q" "y * q < N + c"
proof -
  have "y * q - N = (y - N / q) * q" using q by (simp add: field_simps)
  then have "\<bar>y * q - N\<bar> = \<bar>y - N / q\<bar> * q" using q by (simp add: abs_mult)
  also have "\<dots> < c / q * q" using y q by (intro mult_strict_right_mono)
  also have "\<dots> = c" using q by simp
  finally have "\<bar>y * q - N\<bar> < c" .
  then show "N - c < y * q" "y * q < N + c" by linarith+
qed

lemma Math_round_nearest:
  fixes y :: rat and N D :: int
  assumes D: "0 < D" and y: "\<bar>y - of_int N / of_int D\<bar> < (1 / 2) / of_int D"
  shows "\<bar>of_int (Math_round y) - (of_int N / of_int D :: rat)\<bar> \<le> 1 / 2"
proof -
  define d where "d = Math_round y"
  define q :: rat where "q = of_int D"
  have q: "0 < q" using D by (simp add: q_def)
  have d: "of_int d \<le> y + 1 / 2" "y + 1 / 2 < of_int d + 1"
    unfolding d_def Math_round_def by linarith+
  note s = scale_abs_less[OF q y[folded q_def]]
  have "of_int d * q \<le> (y + 1 / 2) * q" using d(1) q by (intro mult_right_mono) simp_all
  with s(2) have "2 * (of_int d * q) < 2 * of_int N + q + 1" by (simp add: algebra_simps)
  then have "(of_int (2 * (d * D)) :: rat) < of_int (2 * N + D + 1)" by (simp add: q_def)
  then have i1: "2 * (d * D) \<le> 2 * N + D" by (simp only: of_int_less_iff)
  have "(y + 1 / 2) * q < (of_int d + 1) * q" using d(2) q by (intro mult_strict_right_mono)
  with s(1) have "2 * of_int N - q - 1 < 2 * (of_int d * q)" by (simp add: algebra_simps)
  then have "(of_int (2 * N - D - 1) :: rat) < of_int (2 * (d * D))" by (simp add: q_def)
  then have i2: "2 * N - D \<le> 2 * (d * D)" by (simp only: of_int_less_iff)
  from i1 have "(of_int (2 * (d * D)) :: rat) \<le> of_int (2 * N + D)" by (simp only: of_int_le_iff)
  then have j1: "2 * (of_int d * q) \<le> 2 * of_int N + q" by (simp add: q_def)
  from i2 have "(of_int (2 * N - D) :: rat) \<le> of_int (2 * (d * D))" by (simp only: of_int_le_iff)
  then have j2: "2 * of_int N - q \<le> 2 * (of_int d * q)" by (simp add: q_def)
  have "of_int d - of_int N / q = (of_int d * q - of_int N) / q" using q by (simp add: field_simps)
  moreover have "\<bar>of_int d * q - of_int N\<bar> \<le> q / 2" using j1 j2 by linarith
  ultimately have "\<bar>of_int d - of_int N / q\<bar> \<le> (q / 2) / q"
    using q by (simp add: divide_right_mono)
  then show ?thesis using q by (simp add: d_def q_def)
qed

lemma Math_round_stable:
  fixes y :: rat and N D :: int
  assumes D: "0 < D" and r: "N mod D \<noteq> 0"
    and y: "\<bar>(y + 1 / 2) - of_int N / of_int D\<bar> < 1 / of_int D"
  shows "Math_round y = N div D"
proof -
  define q :: rat where "q = of_int D"
  define n where "n = N div D"
  define r where "r = N mod D"
  have q: "0 < q" using D by (simp add: q_def)
  have N: "N = n * D + r" by (simp add: n_def r_def)
  have r: "1 \<le> r" "r \<le> D - 1"
    using assms(2) D pos_mod_sign[of D N] pos_mod_bound[of D N] unfolding r_def by linarith+
  note s = scale_abs_less[OF q y[folded q_def]]
  have "(of_int (n * D) :: rat) \<le> of_int (N - 1)" using N r by (simp only: of_int_le_iff)
  with s(1) have "of_int n * q < (y + 1 / 2) * q" by (simp add: q_def)
  then have l: "of_int n < y + 1 / 2" using q by (simp add: mult_less_cancel_right)
  have "(of_int (N + 1) :: rat) \<le> of_int ((n + 1) * D)"
    using N r by (simp only: of_int_le_iff) (simp add: algebra_simps)
  with s(2) have "(y + 1 / 2) * q < (of_int n + 1) * q" by (simp add: q_def)
  then have u: "y + 1 / 2 < of_int n + 1" using q by (simp add: mult_less_cancel_right)
  show ?thesis unfolding Math_round_def n_def[symmetric]
    by (rule floor_unique) (use l u in simp_all)
qed


lemma rounding_unit_small: "0 < rounding_unit" "rounding_unit < 1 / 100000"
  by (simp_all add: rounding_unit_def)

lemma binary64_unit:
  assumes "0 \<le> x" "x \<le> 128"
  shows "\<bar>binary64 x - x\<bar> \<le> rounding_unit"
  using binary64_near[OF assms] by (simp only: rounding_unit_def)

lemma binary64_nonneg:
  assumes "0 \<le> x"
  shows "0 \<le> binary64 x"
proof -
  have "x / 2 ^ 53 \<le> x" using assms by (simp add: field_simps)
  with binary64_error[OF assms] show ?thesis by linarith
qed

lemma scale_error:
  fixes A a e :: rat and v :: int
  assumes "0 \<le> v" "v \<le> 100" "\<bar>A - a\<bar> \<le> e"
  shows "\<bar>of_int v * A - of_int v * a\<bar> \<le> 100 * e"
proof -
  have "\<bar>of_int v * A - of_int v * a\<bar> = of_int v * \<bar>A - a\<bar>"
    using assms(1) by (simp add: abs_mult right_diff_distrib[symmetric])
  also have "\<dots> \<le> 100 * e"
    using assms by (intro mult_mono) simp_all
  finally show ?thesis .
qed

lemma scaled_error:
  assumes v: "0 \<le> v" "v \<le> 100" and f: "0 \<le> f" "f \<le> 100"
  shows "\<bar>binary64 (of_int v * binary64 (of_int f / 100)) - of_int (v * f) / of_int 100\<bar>
           \<le> 101 * rounding_unit"
proof -
  define a :: rat where "a = of_int f / 100"
  define A where "A = binary64 a"
  define P where "P = of_int v * A"
  have a: "0 \<le> a" "a \<le> 1" using f by (simp_all add: a_def)
  have A: "\<bar>A - a\<bar> \<le> rounding_unit" "0 \<le> A"
    unfolding A_def using a by (auto intro!: binary64_unit binary64_nonneg)
  have P: "\<bar>P - of_int v * a\<bar> \<le> 100 * rounding_unit"
    unfolding P_def by (rule scale_error[OF v A(1)])
  have va: "0 \<le> of_int v * a" "of_int v * a \<le> 100"
    using v a mult_mono[of "of_int v" 100 a 1] by simp_all
  have P0: "0 \<le> P" unfolding P_def using v A(2) by simp
  have P1: "P \<le> 128" using P va rounding_unit_small by linarith
  have "\<bar>binary64 P - P\<bar> \<le> rounding_unit" by (rule binary64_unit[OF P0 P1])
  with P have "\<bar>binary64 P - of_int v * a\<bar> \<le> 101 * rounding_unit" by linarith
  then show ?thesis by (simp add: P_def A_def a_def)
qed

lemma scaled_nearest:
  assumes v: "0 \<le> v" "v \<le> 100" and f: "0 \<le> f" "f \<le> 100"
  shows "\<bar>of_int (scaled v f) - (of_int v * of_int f / 100 :: rat)\<bar> \<le> 1 / 2"
proof -
  have "\<bar>binary64 (of_int v * binary64 (of_int f / 100)) - of_int (v * f) / of_int 100\<bar>
          < (1 / 2) / of_int 100"
    using scaled_error[OF assms] rounding_unit_small by simp
  from Math_round_nearest[OF _ this] show ?thesis by (simp add: scaled_def)
qed

lemma no_tie_aux:
  fixes m b p K :: int
  assumes "K dvd 400" "K dvd 6 * p" "K dvd 10 * p" "\<not> K dvd 5 * p"
  shows "(400 * m + 6 * b * p + 5 * p) mod (10 * p) \<noteq> 0"
proof
  assume "(400 * m + 6 * b * p + 5 * p) mod (10 * p) = 0"
  then have "10 * p dvd 400 * m + 6 * b * p + 5 * p" by (simp add: dvd_eq_mod_eq_0)
  with assms(3) have "K dvd 400 * m + 6 * b * p + 5 * p" by (rule dvd_trans)
  moreover have "K dvd 400 * m" using assms(1) by (rule dvd_mult2)
  moreover have "K dvd 6 * b * p" using assms(2) by (metis dvd_mult mult.assoc mult.left_commute)
  ultimately have "K dvd 5 * p"
    by (metis dvd_add_right_iff dvd_add)
  with assms(4) show False by simp
qed

lemma no_tie:
  fixes m b p :: int
  assumes "1 \<le> p" "p \<le> 13"
  shows "(400 * m + 6 * b * p + 5 * p) mod (10 * p) \<noteq> 0"
proof -
  from assms have "p \<in> {1, 3, 5, 7, 9, 11, 13} \<or> p \<in> {2, 6, 10} \<or> p \<in> {4, 12} \<or> p = 8"
    by simp presburger
  then show ?thesis
  proof (elim disjE)
    assume "p \<in> {1, 3, 5, 7, 9, 11, 13}"
    then show ?thesis by (intro no_tie_aux[of 2]) auto
  next
    assume "p \<in> {2, 6, 10}"
    then show ?thesis by (intro no_tie_aux[of 4]) auto
  next
    assume "p \<in> {4, 12}"
    then show ?thesis by (intro no_tie_aux[of 8]) auto
  next
    assume "p = 8"
    then show ?thesis by (intro no_tie_aux[of 16]) auto
  qed
qed

lemma no_tie_default:
  fixes b :: int
  shows "(205 + 6 * b) mod 10 \<noteq> 0"
  by presburger

lemma section_part_error:
  fixes b :: int
  assumes b: "0 \<le> b" "b \<le> 100"
  shows "\<bar>binary64 (of_int b * binary64 (6 / 10)) - of_int b * (6 / 10)\<bar> \<le> 101 * rounding_unit"
    and "0 \<le> binary64 (of_int b * binary64 (6 / 10))"
    and "binary64 (of_int b * binary64 (6 / 10)) \<le> 61"
proof -
  define c where "c = binary64 (6 / 10)"
  define S where "S = of_int b * c"
  have c: "\<bar>c - 6 / 10\<bar> \<le> rounding_unit" "0 \<le> c"
    unfolding c_def by (auto intro!: binary64_unit binary64_nonneg)
  have S: "\<bar>S - of_int b * (6 / 10)\<bar> \<le> 100 * rounding_unit"
    unfolding S_def by (rule scale_error[OF b c(1)])
  have bb: "(0::rat) \<le> of_int b * (6 / 10)" "of_int b * (6 / 10) \<le> (60::rat)"
    using b by simp_all
  have S0: "0 \<le> S" unfolding S_def using b c(2) by simp
  have S1: "S \<le> 128" using S bb rounding_unit_small by linarith
  have e: "\<bar>binary64 S - S\<bar> \<le> rounding_unit" by (rule binary64_unit[OF S0 S1])
  with S show "\<bar>binary64 (of_int b * binary64 (6 / 10)) - of_int b * (6 / 10)\<bar> \<le> 101 * rounding_unit"
    unfolding S_def c_def by linarith
  show "0 \<le> binary64 (of_int b * binary64 (6 / 10))"
    using binary64_nonneg[OF S0] by (simp add: S_def c_def)
  show "binary64 (of_int b * binary64 (6 / 10)) \<le> 61"
    using e S bb rounding_unit_small unfolding S_def c_def by linarith
qed

lemma keyword_part_error:
  fixes m p :: nat
  assumes p: "0 < p" and m: "m \<le> p"
  shows "\<bar>binary64 (binary64 (of_nat m / of_nat p) * 40) - of_nat m / of_nat p * 40\<bar>
           \<le> 41 * rounding_unit"
    and "0 \<le> binary64 (binary64 (of_nat m / of_nat p) * 40)"
    and "binary64 (binary64 (of_nat m / of_nat p) * 40) \<le> 41"
proof -
  define q :: rat where "q = of_nat m / of_nat p"
  define Q where "Q = binary64 q"
  have q: "0 \<le> q" "q \<le> 1" using p m by (simp_all add: q_def)
  have Q: "\<bar>Q - q\<bar> \<le> rounding_unit" "0 \<le> Q"
    unfolding Q_def using q by (auto intro!: binary64_unit binary64_nonneg)
  have K0: "0 \<le> Q * 40" using Q(2) by simp
  have K1: "Q * 40 \<le> 128" using Q(1) q rounding_unit_small by linarith
  have e: "\<bar>binary64 (Q * 40) - Q * 40\<bar> \<le> rounding_unit" by (rule binary64_unit[OF K0 K1])
  with Q(1) have "\<bar>binary64 (Q * 40) - q * 40\<bar> \<le> 41 * rounding_unit"
    by linarith
  then show "\<bar>binary64 (binary64 (of_nat m / of_nat p) * 40) - of_nat m / of_nat p * 40\<bar>
           \<le> 41 * rounding_unit"
    by (simp only: Q_def q_def)
  show "0 \<le> binary64 (binary64 (of_nat m / of_nat p) * 40)"
    using binary64_nonneg[OF K0] by (simp only: Q_def q_def)
  have "binary64 (Q * 40) \<le> 41"
    using e Q(1) q rounding_unit_small by linarith
  then show "binary64 (binary64 (of_nat m / of_nat p) * 40) \<le> 41"
    by (simp only: Q_def q_def)
qed

lemma final_round:
  fixes m p :: nat and b :: int
  assumes p: "0 < p" "p \<le> 13" and m: "m \<le> p" and b: "0 \<le> b" "b \<le> 100"
  shows "Math_round (binary64 (binary64 (binary64 (of_nat m / of_nat p) * 40)
                      + binary64 (of_int b * binary64 (6 / 10))))
         = \<lfloor>(of_nat m / of_nat p * 40 + of_int b * (6 / 10) + 1 / 2 :: rat)\<rfloor>"
proof -
  define K where "K = binary64 (binary64 (of_nat m / of_nat p) * 40)"
  define S where "S = binary64 (of_int b * binary64 (6 / 10))"
  define X :: rat where "X = of_nat m / of_nat p * 40 + of_int b * (6 / 10)"
  define N :: int where "N = 400 * int m + 6 * b * int p + 5 * int p"
  define D :: int where "D = 10 * int p"
  note k = keyword_part_error[OF p(1) m, folded K_def]
  note s = section_part_error[OF b, folded S_def]
  have T0: "0 \<le> K + S" using k(2) s(2) by simp
  have T1: "K + S \<le> 128" using k(3) s(3) by simp
  have "\<bar>binary64 (K + S) - (K + S)\<bar> \<le> rounding_unit" by (rule binary64_unit[OF T0 T1])
  with k(1) s(1) have y: "\<bar>binary64 (K + S) - X\<bar> \<le> 143 * rounding_unit"
    unfolding X_def by linarith
  have D: "0 < D" using p by (simp add: D_def)
  have XN: "X + 1 / 2 = of_int N / of_int D"
    using p(1) by (simp add: X_def N_def D_def field_simps)
  have "(of_int D :: rat) \<le> 130" using p(2) by (simp add: D_def)
  then have "1 / 130 \<le> 1 / (of_int D :: rat)" using D by (simp add: field_simps)
  with y rounding_unit_small have "\<bar>(binary64 (K + S) + 1 / 2) - of_int N / of_int D\<bar> < 1 / of_int D"
    unfolding XN[symmetric] by linarith
  from Math_round_stable[OF D _ this] no_tie[of "int p" "int m" b] p
  have "Math_round (binary64 (K + S)) = N div D" by (simp add: N_def D_def)
  also have "\<dots> = \<lfloor>of_int N / (of_int D :: rat)\<rfloor>" by (simp only: floor_divide_of_int_eq)
  also have "\<dots> = \<lfloor>X + 1 / 2\<rfloor>" by (simp only: XN)
  finally show ?thesis by (simp only: K_def S_def X_def)
qed

lemma final_round_default:
  fixes b :: int
  assumes b: "0 \<le> b" "b \<le> 100"
  shows "Math_round (binary64 (20 + binary64 (of_int b * binary64 (6 / 10))))
         = \<lfloor>(20 + of_int b * (6 / 10) + 1 / 2 :: rat)\<rfloor>"
proof -
  define S where "S = binary64 (of_int b * binary64 (6 / 10))"
  define X :: rat where "X = 20 + of_int b * (6 / 10)"
  define N :: int where "N = 205 + 6 * b"
  note s = section_part_error[OF b, folded S_def]
  have T0: "0 \<le> 20 + S" using s(2) by simp
  have T1: "20 + S \<le> 128" using s(3) by simp
  have "\<bar>binary64 (20 + S) - (20 + S)\<bar> \<le> rounding_unit" by (rule binary64_unit[OF T0 T1])
  with s(1) have y: "\<bar>binary64 (20 + S) - X\<bar> \<le> 102 * rounding_unit"
    unfolding X_def by linarith
  have XN: "X + 1 / 2 = of_int N / of_int 10"
    by (simp add: X_def N_def field_simps)
  from y rounding_unit_small have "\<bar>(binary64 (20 + S) + 1 / 2) - of_int N / of_int 10\<bar> < 1 / of_int 10"
    unfolding XN[symmetric] by simp
  from Math_round_stable[OF _ _ this] no_tie_default[of b]
  have "Math_round (binary64 (20 + S)) = N div 10" by (simp add: N_def)
  also have "\<dots> = \<lfloor>of_int N / (of_int 10 :: rat)\<rfloor>" by (simp only: floor_divide_of_int_eq)
  also have "\<dots> = \<lfloor>X + 1 / 2\<rfloor>" by (simp only: XN)
  finally show ?thesis by (simp only: S_def X_def)
qed

section \<open>The final score, exactly\<close>

lemma toLowerCase_unit_idem: "toLowerCase_unit (toLowerCase_unit c) = toLowerCase_unit c"
  by (auto simp: toLowerCase_unit_def code_unit_def Let_def)

lemma toLowerCase_idem: "toLowerCase (toLowerCase s) = toLowerCase s"
  by (simp add: toLowerCase_def toLowerCase_unit_idem)

lemma lower_token:
  assumes "w \<in> set (match_words (toLowerCase s))"
  shows "toLowerCase w = w"
proof -
  from match_words_token(3)[OF assms] obtain pre post where
    "toLowerCase s = pre @ w @ post" by blast
  then have "toLowerCase (pre @ w @ post) = pre @ w @ post"
    using toLowerCase_idem[of s] by simp
  then show ?thesis by (simp add: toLowerCase_def)
qed


lemma vocabulary_tokens_eval:
  "vocabulary_tokens =
     [''javascript'', ''react'', ''python'', ''java'', ''cloud'', ''docker'', ''kubernetes'',
      ''typescript'', ''html'', ''agile'', ''devops'', ''rest'', ''graphql'']"
  by code_simp

lemma potentialKeywords_length: "length (potentialKeywords jd) \<le> 13"
proof -
  have "set (potentialKeywords jd) \<subseteq> set vocabulary_tokens"
    using potentialKeywords_word[of _ jd]
    by (auto simp: vocabulary_tokens_def potentialKeywords_set)
  then have "card (set (potentialKeywords jd)) \<le> card (set vocabulary_tokens)"
    by (intro card_mono) simp_all
  also have "\<dots> \<le> length vocabulary_tokens" by (rule card_length)
  also have "\<dots> = 13" by (simp add: vocabulary_tokens_eval)
  finally show ?thesis by (simp add: distinct_card)
qed

lemma matchedKeywords'_length:
  "length (matchedKeywords' rt jd) \<le> length (potentialKeywords jd)"
  by (simp add: matchedKeywords'_def)

lemma baseSectionScore_bounds:
  "0 \<le> baseSectionScore rt jd" "baseSectionScore rt jd \<le> 100"
  by (simp_all add: baseSectionScore_def sectionScores'_def Let_def)

lemma sectionScores'_bounds:
  "0 \<le> experience (sectionScores' rt jd)" "experience (sectionScores' rt jd) \<le> 100"
  "0 \<le> skills (sectionScores' rt jd)" "skills (sectionScores' rt jd) \<le> 100"
  "0 \<le> projects (sectionScores' rt jd)" "projects (sectionScores' rt jd) \<le> 100"
  by (simp_all add: sectionScores'_def)


lemma finalAtsScore_exact:
  "finalAtsScore rt jd =
     min \<lfloor>exact_score (length (matchedKeywords' rt jd)) (length (potentialKeywords jd))
                      (baseSectionScore rt jd) + 1 / 2\<rfloor> 98"
proof (cases "0 < length (potentialKeywords jd)")
  case True
  from final_round[OF True potentialKeywords_length matchedKeywords'_length baseSectionScore_bounds]
  show ?thesis using True by (simp add: finalAtsScore_def keywordScore_def exact_score_def)
next
  case False
  from final_round_default[OF baseSectionScore_bounds]
  show ?thesis using False by (simp add: finalAtsScore_def keywordScore_def exact_score_def)
qed

lemma exact_score_nonneg: "0 \<le> b \<Longrightarrow> 0 \<le> exact_score m p b"
  by (simp add: exact_score_def)

lemma finalAtsScore_bounds: "0 \<le> finalAtsScore rt jd" "finalAtsScore rt jd \<le> 98"
proof -
  have "0 \<le> exact_score (length (matchedKeywords' rt jd)) (length (potentialKeywords jd))
                      (baseSectionScore rt jd) + 1 / 2"
    using exact_score_nonneg[OF baseSectionScore_bounds(1)] by simp
  then show "0 \<le> finalAtsScore rt jd" by (simp add: finalAtsScore_exact)
  show "finalAtsScore rt jd \<le> 98" by (simp add: finalAtsScore_exact)
qed

section \<open>The sample request, evaluated\<close>

lemma handler_result:
  assumes "analyzeResumeHandler env request = Inr response"
    and "resumeText (data request) = JString rt" "jobDescription (data request) = JString jd"
  shows "dynamicResult.truncate response = build_dynamicResult rt jd"
  using handler_Inr[OF assms(1)] assms(2,3) by (metis js_value.inject(3))

lemma example_valid:
  "50 \<le> length (trim example_resume)" "20 \<le> length (trim example_job)"
  "example_resume \<noteq> []" "example_job \<noteq> []"
  by code_simp+

lemma example_handler:
  "analyzeResumeHandler example_environment example_request = Inr example_response"
  using example_valid
  by (simp add: analyzeResumeHandler_def example_request_def example_environment_def
        example_response_def Let_def)

lemma other_handler:
  "analyzeResumeHandler other_environment other_request = Inr other_response"
  using example_valid
  by (simp add: analyzeResumeHandler_def other_request_def other_environment_def
        other_response_def Let_def)

lemma example_texts:
  "resumeText (data example_request) = JString example_resume"
  "jobDescription (data example_request) = JString example_job"
  "resumeText (data other_request) = JString example_resume"
  "jobDescription (data other_request) = JString example_job"
  by (simp_all add: example_request_def other_request_def)

lemma example_keywords:
  "potentialKeywords example_job = [''react'', ''python'', ''docker'', ''kubernetes'', ''graphql'']"
  "matchedKeywords' example_resume example_job = [''python'']"
  "missingKeywords' example_resume example_job = [''react'', ''docker'', ''kubernetes'', ''graphql'']"
  by code_simp+

lemma example_sections:
  "experience (sectionScores' example_resume example_job) = 25"
  "skills (sectionScores' example_resume example_job) = 35"
  "projects (sectionScores' example_resume example_job) = 18"
  "roleAlignment (sectionScores' example_resume example_job) = 5"
  by code_simp+

lemma example_base: "baseSectionScore example_resume example_job = 83"
  by (simp add: baseSectionScore_def Let_def example_sections)

lemma example_exact: "\<lfloor>exact_score 1 5 83 + 1 / 2\<rfloor> = 58"
  by code_simp

lemma example_lengths:
  "length (potentialKeywords example_job) = 5"
  "length (matchedKeywords' example_resume example_job) = 1"
  by (simp_all add: example_keywords)

lemma example_final: "finalAtsScore example_resume example_job = 58"
  unfolding finalAtsScore_exact example_lengths example_base example_exact by simp

lemma example_scaled: "scaled 25 58 = 14" "scaled 35 58 = 20" "scaled 18 58 = 10"
  by code_simp+

lemma example_capitalized:
  "map capitalize [''react'', ''python'', ''docker'', ''kubernetes'', ''graphql'']
     = [''React'', ''Python'', ''Docker'', ''Kubernetes'', ''Graphql'']"
  "map capitalize [''python''] = [''Python'']"
  "map capitalize [''react'', ''docker'', ''kubernetes'', ''graphql'']
     = [''React'', ''Docker'', ''Kubernetes'', ''Graphql'']"
  by code_simp+

lemmas example_fields =
  response_fields[OF handler_result[OF example_handler example_texts(1,2)]]

section \<open>Further facts used by the claims\<close>

lemma first_index_Cons:
  "first_index (x # xs) a = (if x = a then 0 else Suc (first_index xs a))"
  by (simp add: first_index_def)

lemma first_index_filter:
  assumes "P a" "P b" "first_index (filter P xs) a < first_index (filter P xs) b"
  shows "first_index xs a < first_index xs b"
  using assms(3)
proof (induction xs)
  case Nil
  then show ?case by (simp add: first_index_def)
next
  case (Cons x xs)
  then show ?case using assms(1,2)
    by (auto simp: first_index_Cons split: if_splits)
qed

lemma accepted_projr:
  assumes "auth request = Some uid"
    and "resumeText (data request) = JString rt" "jobDescription (data request) = JString jd"
    and "50 \<le> length (trim rt)" "20 \<le> length (trim jd)"
  shows "analyzeResumeHandler env request = Inr (projr (analyzeResumeHandler env request))"
proof -
  from assms have "\<exists>response. analyzeResumeHandler env request = Inr response"
    unfolding dynamic_accepts_iff by simp
  then show ?thesis by auto
qed

lemma repeating_valid: "20 \<le> length (trim repeating_job)"
  by code_simp

lemma repeating_handler:
  "analyzeResumeHandler example_environment (request_of_texts example_resume repeating_job)
     = Inr (projr (analyzeResumeHandler example_environment
                     (request_of_texts example_resume repeating_job)))"
  by (rule accepted_projr[where rt = example_resume and jd = repeating_job and uid = "''user-1''"])
     (simp_all add: request_of_texts_def example_valid repeating_valid)

lemma repeating_keywords:
  "match_words (toLowerCase repeating_job) =
     [''python'', ''react'', ''python'', ''node'', ''rest'', ''react'', ''again'']"
  "potentialKeywords repeating_job = [''python'', ''react'', ''rest'']"
  "matchedKeywords' example_resume repeating_job = [''python'']"
  "missingKeywords' example_resume repeating_job = [''react'', ''rest'']"
  by code_simp+

lemma repeating_capitalized:
  "map capitalize [''python'', ''react'', ''rest''] = [''Python'', ''React'', ''Rest'']"
  "map capitalize [''react'', ''rest''] = [''React'', ''Rest'']"
  by code_simp+

lemma excluded_names:
  "list_all (\<lambda>k. \<not> (4 \<le> length k \<and> list_all is_word_char k))
     [''Git'', ''SQL'', ''AWS'', ''CSS'', ''API'', ''Node.js'', ''CI/CD'', ''REST API'',
      ''Machine Learning'']"
  by code_simp

lemma example_included:
  "some_included sections_experience (toLowerCase example_resume)"
  "some_included sections_projects (toLowerCase example_resume)"
  by code_simp+

lemma example_join:
  "join '', '' (take 3 [''react'', ''docker'', ''kubernetes'', ''graphql''])
     = ''react, docker, kubernetes''"
  by code_simp

lemma short_resume_rejected:
  assumes "auth request = Some uid" "resumeText (data request) = JString rt" "length rt < 100"
  shows "\<exists>msg. analyzeResumeHandler_openai_validation request = Inl (HttpsError invalid_argument msg)"
proof -
  have "length (trim rt) < 100" using length_trim_le[of rt] assms(3) by simp
  then show ?thesis using assms(1,2)
    by (simp add: analyzeResumeHandler_openai_validation_def Let_def)
qed

lemma openai_rejects_with_invalid_argument:
  assumes "auth request = Some uid"
  shows "(\<exists>rt jd. analyzeResumeHandler_openai_validation request = Inr (rt, jd))
       \<or> (\<exists>msg. analyzeResumeHandler_openai_validation request = Inl (HttpsError invalid_argument msg))"
  using assms by (simp add: analyzeResumeHandler_openai_validation_def Let_def)

lemma replicate_trim:
  "length (trim (replicate 99 (CHR ''a''))) = 99"
  "length (trim (replicate 49 (CHR ''b''))) = 49"
  "length (trim (replicate 50 (CHR ''b''))) = 50"
  "length (trim (replicate 100 (CHR '' ''))) = 0"
  "length (trim (replicate 100 (CHR ''a''))) = 100"
  by code_simp+

section \<open>The claims\<close>

text \<open>
  \<^bold>\<open>C1.\<close> For every request that passes validation, the returned \<open>atsScore\<close> is
  \<open>round(keywordScore + baseSectionScore * 0.6)\<close> clamped to at most 98, where
  \<open>keywordScore\<close> is \<open>(|matched| / |keywords|) * 40\<close> for a non-empty keyword list and 20
  for an empty one, and \<open>baseSectionScore\<close> is the sum of the four section values. The
  handler computes in binary64; the theorem states that the integer it returns is the
  one the exact formula gives (\<open>exact_score\<close>, rounded half up), that it never exceeds 98,
  and that the \<open>keywordScore\<close> it computes is the exact quotient times 40 up to rounding.
\<close>

theorem final_score_formula:
  assumes "analyzeResumeHandler env request = Inr response"
    and "resumeText (data request) = JString rt" "jobDescription (data request) = JString jd"
  shows "atsScore response =
           min \<lfloor>exact_score (length (matchedKeywords response)) (length (requiredKeywords response))
                   (baseSectionScore rt jd) + 1 / 2\<rfloor> 98
       \<and> atsScore response \<le> 98
       \<and> baseSectionScore rt jd =
           experience (sectionScores' rt jd) + skills (sectionScores' rt jd)
             + projects (sectionScores' rt jd) + roleAlignment (sectionScores' rt jd)
       \<and> (requiredKeywords response = [] \<longrightarrow> keywordScore rt jd = 20)
       \<and> (requiredKeywords response \<noteq> [] \<longrightarrow>
            \<bar>keywordScore rt jd
               - of_nat (length (matchedKeywords response))
                   / of_nat (length (requiredKeywords response)) * 40\<bar> \<le> 41 * rounding_unit)"
proof -
  note f = response_fields[OF handler_result[OF assms]]
  have l: "length (matchedKeywords response) = length (matchedKeywords' rt jd)"
    "length (requiredKeywords response) = length (potentialKeywords jd)"
    by (simp_all add: f)
  have a: "atsScore response =
           min \<lfloor>exact_score (length (matchedKeywords response)) (length (requiredKeywords response))
                   (baseSectionScore rt jd) + 1 / 2\<rfloor> 98"
    unfolding l f(1) by (rule finalAtsScore_exact)
  have b: "atsScore response \<le> 98" unfolding f(1) by (rule finalAtsScore_bounds)
  have c: "baseSectionScore rt jd =
           experience (sectionScores' rt jd) + skills (sectionScores' rt jd)
             + projects (sectionScores' rt jd) + roleAlignment (sectionScores' rt jd)"
    by (simp add: baseSectionScore_def Let_def)
  have d: "requiredKeywords response = [] \<longrightarrow> keywordScore rt jd = 20"
    by (simp add: f keywordScore_def)
  have e: "requiredKeywords response \<noteq> [] \<longrightarrow>
            \<bar>keywordScore rt jd
               - of_nat (length (matchedKeywords response))
                   / of_nat (length (requiredKeywords response)) * 40\<bar> \<le> 41 * rounding_unit"
  proof
    assume "requiredKeywords response \<noteq> []"
    then have p: "0 < length (potentialKeywords jd)" by (simp add: f)
    from keyword_part_error(1)[OF p matchedKeywords'_length[of rt jd]] p
    show "\<bar>keywordScore rt jd
               - of_nat (length (matchedKeywords response))
                   / of_nat (length (requiredKeywords response)) * 40\<bar> \<le> 41 * rounding_unit"
      unfolding l by (simp add: keywordScore_def)
  qed
  from a b c d e show ?thesis by blast
qed

theorem final_score_formula_witness:
  "analyzeResumeHandler example_environment example_request = Inr example_response
   \<and> length (matchedKeywords example_response) = 1
   \<and> length (requiredKeywords example_response) = 5
   \<and> baseSectionScore example_resume example_job = 83
   \<and> atsScore example_response = 58"
proof -
  note f = example_fields
  have l: "length (matchedKeywords example_response) = 1"
    "length (requiredKeywords example_response) = 5"
    by (simp_all add: f example_lengths)
  from final_score_formula[OF example_handler example_texts(1,2)]
  have "atsScore example_response = min \<lfloor>exact_score 1 5 83 + 1 / 2\<rfloor> 98"
    unfolding l example_base by blast
  then have "atsScore example_response = 58" unfolding example_exact by simp
  with l example_handler example_base show ?thesis by blast
qed

text \<open>
  \<^bold>\<open>C3.\<close> For every request that passes validation, the returned \<open>matchedKeywords\<close> and
  \<open>missingKeywords\<close> partition \<open>requiredKeywords\<close>: as multisets they add up to it, it has
  no duplicates (so every required keyword is in exactly one of the two lists), their
  union is its set and they are disjoint; and \<open>weakKeywords\<close> is the first two entries
  of \<open>missingKeywords\<close>.
\<close>

theorem keyword_partition:
  assumes "analyzeResumeHandler env request = Inr response"
  shows "mset (matchedKeywords response) + mset (missingKeywords response)
           = mset (requiredKeywords response)
       \<and> distinct (requiredKeywords response)
       \<and> set (matchedKeywords response) \<union> set (missingKeywords response)
           = set (requiredKeywords response)
       \<and> set (matchedKeywords response) \<inter> set (missingKeywords response) = {}
       \<and> weakKeywords response = take 2 (missingKeywords response)"
proof -
  from assms obtain rt jd where t: "dynamicResult.truncate response = build_dynamicResult rt jd"
    by (rule handler_Inr)
  note f = response_fields[OF t]
  have m: "mset (matchedKeywords response) + mset (missingKeywords response)
           = mset (requiredKeywords response)"
    unfolding f using keywords_partition_mset[of rt jd]
    by (metis image_mset_union mset_map)
  have sub: "set (potentialKeywords jd) \<subseteq> set (map toLowerCase commonTechKeywords)"
    by (auto simp: potentialKeywords_set)
  have d: "distinct (requiredKeywords response)"
    unfolding f using inj_on_subset[OF capitalize_inj_on_vocabulary sub]
    by (simp add: distinct_map)
  have u: "set (matchedKeywords response) \<union> set (missingKeywords response)
           = set (requiredKeywords response)"
    using m by (metis set_mset_mset set_mset_union)
  have "distinct (matchedKeywords response @ missingKeywords response)"
    using d m by (metis mset_append mset_eq_imp_distinct_iff)
  then have i: "set (matchedKeywords response) \<inter> set (missingKeywords response) = {}"
    by simp
  have w: "weakKeywords response = take 2 (missingKeywords response)"
    unfolding f by (simp add: take_map)
  from m d u i w show ?thesis by blast
qed

theorem keyword_partition_witness:
  "analyzeResumeHandler example_environment example_request = Inr example_response
   \<and> requiredKeywords example_response = [''React'', ''Python'', ''Docker'', ''Kubernetes'', ''Graphql'']
   \<and> matchedKeywords example_response = [''Python'']
   \<and> missingKeywords example_response = [''React'', ''Docker'', ''Kubernetes'', ''Graphql'']
   \<and> weakKeywords example_response = [''React'', ''Docker'']
   \<and> mset (matchedKeywords example_response) + mset (missingKeywords example_response)
         = mset (requiredKeywords example_response)
   \<and> set (matchedKeywords example_response) \<inter> set (missingKeywords example_response) = {}"
proof -
  note f = example_fields
  have r: "requiredKeywords example_response = [''React'', ''Python'', ''Docker'', ''Kubernetes'', ''Graphql'']"
    "matchedKeywords example_response = [''Python'']"
    "missingKeywords example_response = [''React'', ''Docker'', ''Kubernetes'', ''Graphql'']"
    unfolding f example_keywords example_capitalized by simp_all
  from keyword_partition[OF example_handler]
  have p: "mset (matchedKeywords example_response) + mset (missingKeywords example_response)
         = mset (requiredKeywords example_response)"
    "set (matchedKeywords example_response) \<inter> set (missingKeywords example_response) = {}"
    "weakKeywords example_response = take 2 (missingKeywords example_response)"
    by blast+
  from p(3) have "weakKeywords example_response = [''React'', ''Docker'']"
    unfolding r by simp
  with r p example_handler show ?thesis by blast
qed

text \<open>
  \<^bold>\<open>C4\<close> (as amended). The OpenAI-backed handler rejects with \<open>invalid-argument\<close> every
  resume text of 99 characters, and it accepts a request exactly when the request is
  authenticated, both texts are strings, the trimmed resume has at least 100 characters
  and the resume at most 50000, the trimmed job description has at least 50 characters
  and the job description at most 20000; trimming changes nothing in a text that neither
  starts nor ends with white space, so such a resume of 100 characters passes. The
  dynamic heuristic handler accepts exactly the authenticated requests whose texts are
  strings with trimmed lengths of at least 50 and 20; it has no upper bound.
\<close>

theorem input_validation_bounds:
  "(auth request = Some uid \<and> resumeText (data request) = JString rt \<and> length rt = 99 \<longrightarrow>
      (\<exists>msg. analyzeResumeHandler_openai_validation request
               = Inl (HttpsError invalid_argument msg)))
   \<and> (analyzeResumeHandler_openai_validation request = Inr (rt, jd) \<longleftrightarrow>
        auth request \<noteq> None \<and>
        resumeText (data request) = JString rt \<and> jobDescription (data request) = JString jd \<and>
        100 \<le> length (trim rt) \<and> length rt \<le> 50000 \<and>
        50 \<le> length (trim jd) \<and> length jd \<le> 20000)
   \<and> (rt \<noteq> [] \<and> \<not> is_space (hd rt) \<and> \<not> is_space (last rt) \<longrightarrow> trim rt = rt)
   \<and> ((\<exists>response. analyzeResumeHandler env request = Inr response) \<longleftrightarrow>
        auth request \<noteq> None \<and>
        (\<exists>rt jd. resumeText (data request) = JString rt \<and>
                 jobDescription (data request) = JString jd \<and>
                 50 \<le> length (trim rt) \<and> 20 \<le> length (trim jd)))"
  using short_resume_rejected[of request uid rt] openai_accepts_iff[of request rt jd]
    trim_id[of rt] dynamic_accepts_iff[of env request]
  by simp

theorem input_validation_bounds_witness:
  "(\<exists>msg. analyzeResumeHandler_openai_validation
            (request_of_texts (replicate 99 (CHR ''a'')) (replicate 50 (CHR ''b'')))
          = Inl (HttpsError invalid_argument msg))
   \<and> analyzeResumeHandler_openai_validation
         (request_of_texts (replicate 100 (CHR ''a'')) (replicate 50 (CHR ''b'')))
       = Inr (replicate 100 (CHR ''a''), replicate 50 (CHR ''b''))"
proof -
  have a: "\<exists>msg. analyzeResumeHandler_openai_validation
            (request_of_texts (replicate 99 (CHR ''a'')) (replicate 50 (CHR ''b'')))
          = Inl (HttpsError invalid_argument msg)"
    using input_validation_bounds[of "request_of_texts (replicate 99 (CHR ''a'')) (replicate 50 (CHR ''b''))"
        "''user-1''" "replicate 99 (CHR ''a'')"]
    by (simp add: request_of_texts_def)
  have b: "analyzeResumeHandler_openai_validation
         (request_of_texts (replicate 100 (CHR ''a'')) (replicate 50 (CHR ''b'')))
       = Inr (replicate 100 (CHR ''a''), replicate 50 (CHR ''b''))"
    using input_validation_bounds[of "request_of_texts (replicate 100 (CHR ''a'')) (replicate 50 (CHR ''b''))"
        "''user-1''" "replicate 100 (CHR ''a'')" "replicate 50 (CHR ''b'')"]
    by (simp add: request_of_texts_def replicate_trim)
  from a b show ?thesis by blast
qed

text \<open>
  The claim as it was stated fails on both handlers: the dynamic heuristic handler
  accepts a resume of 99 characters with a job description of 49, and the OpenAI-backed
  handler rejects a resume of 100 characters that are all spaces.
\<close>

theorem input_validation_counterexample:
  "length (replicate 99 (CHR ''a'')) = 99
   \<and> length (replicate 49 (CHR ''b'')) = 49
   \<and> \<not> isl (analyzeResumeHandler example_environment
              (request_of_texts (replicate 99 (CHR ''a'')) (replicate 49 (CHR ''b''))))
   \<and> length (replicate 100 (CHR '' '')) = 100
   \<and> isl (analyzeResumeHandler_openai_validation
            (request_of_texts (replicate 100 (CHR '' '')) (replicate 50 (CHR ''b''))))"
proof -
  have "\<exists>response. analyzeResumeHandler example_environment
              (request_of_texts (replicate 99 (CHR ''a'')) (replicate 49 (CHR ''b''))) = Inr response"
    unfolding dynamic_accepts_iff by (simp add: request_of_texts_def replicate_trim)
  then have a: "\<not> isl (analyzeResumeHandler example_environment
              (request_of_texts (replicate 99 (CHR ''a'')) (replicate 49 (CHR ''b''))))"
    by auto
  have b: "isl (analyzeResumeHandler_openai_validation
            (request_of_texts (replicate 100 (CHR '' '')) (replicate 50 (CHR ''b''))))"
    by (simp add: analyzeResumeHandler_openai_validation_def request_of_texts_def Let_def
          replicate_trim)
  from a b show ?thesis by simp
qed

text \<open>
  \<^bold>\<open>C5.\<close> For every resume text, the base value of a section depends only on whether the
  lower-cased text contains one of the section's header synonyms as a substring:
  experience is 25 if it does and 5 otherwise, skills 35 or 10, projects 18 or 5; and
  \<open>roleAlignment\<close> is 10 when more than five keywords are matched and 5 otherwise.
\<close>

theorem section_base_values:
  "experience (sectionScores' rt jd) =
     (if \<exists>s\<in>set [''experience'', ''work history'', ''employment''].
           \<exists>pre post. toLowerCase rt = pre @ s @ post then 25 else 5)
   \<and> skills (sectionScores' rt jd) =
     (if \<exists>s\<in>set [''skills'', ''technologies'', ''competencies''].
           \<exists>pre post. toLowerCase rt = pre @ s @ post then 35 else 10)
   \<and> projects (sectionScores' rt jd) =
     (if \<exists>s\<in>set [''projects'', ''portfolio''].
           \<exists>pre post. toLowerCase rt = pre @ s @ post then 18 else 5)
   \<and> roleAlignment (sectionScores' rt jd) =
     (if 5 < length (matchedKeywords' rt jd) then 10 else 5)"
  unfolding sectionScores'_def resumeFullText_def some_included_iff
    sections_experience_def sections_skills_def sections_projects_def
  by simp

theorem section_base_values_witness:
  "experience (sectionScores' example_resume example_job) = 25
   \<and> skills (sectionScores' example_resume example_job) = 35
   \<and> projects (sectionScores' example_resume example_job) = 18
   \<and> roleAlignment (sectionScores' example_resume example_job) = 5
   \<and> length (matchedKeywords' example_resume example_job) = 1"
  using section_base_values[of example_resume example_job]
  by (simp add: example_sections example_lengths)

text \<open>
  \<^bold>\<open>C6.\<close> The keywords extracted from a job description are distinct; they are exactly
  the tokens of the lower-cased description that belong to the lower-cased vocabulary;
  the tokens are the maximal runs of at least 4 word characters of the lower-cased
  description (each token is such a run, in lower case, and each such run is a token);
  and the keywords are listed in the order of their first occurrences among the tokens.
\<close>

theorem keyword_extraction:
  "distinct (potentialKeywords jd)
   \<and> set (potentialKeywords jd) =
       {w \<in> set (match_words (toLowerCase jd)). w \<in> set (map toLowerCase commonTechKeywords)}
   \<and> (\<forall>w \<in> set (match_words (toLowerCase jd)).
         4 \<le> length w \<and> list_all is_word_char w \<and> toLowerCase w = w \<and>
         (\<exists>pre post. toLowerCase jd = pre @ w @ post \<and>
            (pre = [] \<or> \<not> is_word_char (last pre)) \<and>
            (post = [] \<or> \<not> is_word_char (hd post))))
   \<and> (\<forall>pre w post.
         toLowerCase jd = pre @ w @ post \<and> list_all is_word_char w \<and> 4 \<le> length w \<and>
         (pre = [] \<or> \<not> is_word_char (last pre)) \<and> (post = [] \<or> \<not> is_word_char (hd post))
         \<longrightarrow> w \<in> set (match_words (toLowerCase jd)))
   \<and> sorted_wrt (\<lambda>a b. first_index (match_words (toLowerCase jd)) a
                          < first_index (match_words (toLowerCase jd)) b)
        (potentialKeywords jd)"
proof -
  let ?ws = "match_words (toLowerCase jd)"
  let ?voc = "filter (\<lambda>w. w \<in> set (map toLowerCase commonTechKeywords)) ?ws"
  have a: "distinct (potentialKeywords jd)" by simp
  have b: "set (potentialKeywords jd) =
       {w \<in> set ?ws. w \<in> set (map toLowerCase commonTechKeywords)}"
    by (simp add: potentialKeywords_set jdWords_def)
  have c: "\<forall>w \<in> set ?ws.
         4 \<le> length w \<and> list_all is_word_char w \<and> toLowerCase w = w \<and>
         (\<exists>pre post. toLowerCase jd = pre @ w @ post \<and>
            (pre = [] \<or> \<not> is_word_char (last pre)) \<and>
            (post = [] \<or> \<not> is_word_char (hd post)))"
    using match_words_token lower_token by blast
  have c': "\<forall>pre w post.
         toLowerCase jd = pre @ w @ post \<and> list_all is_word_char w \<and> 4 \<le> length w \<and>
         (pre = [] \<or> \<not> is_word_char (last pre)) \<and> (post = [] \<or> \<not> is_word_char (hd post))
         \<longrightarrow> w \<in> set (match_words (toLowerCase jd))"
    using match_words_complete by blast
  have "sorted_wrt (\<lambda>a b. first_index ?voc a < first_index ?voc b) (Array_from_Set ?voc)"
    by (rule Array_from_Set_order)
  then have d: "sorted_wrt (\<lambda>a b. first_index ?ws a < first_index ?ws b) (potentialKeywords jd)"
    unfolding potentialKeywords_def jdWords_def
  proof (rule sorted_wrt_mono_rel[rotated])
    fix a b
    assume A: "a \<in> set (Array_from_Set ?voc)" and B: "b \<in> set (Array_from_Set ?voc)"
      and L: "first_index ?voc a < first_index ?voc b"
    from A have Pa: "a \<in> set (map toLowerCase commonTechKeywords)" by simp
    from B have Pb: "b \<in> set (map toLowerCase commonTechKeywords)" by simp
    show "first_index ?ws a < first_index ?ws b"
      using first_index_filter[of "\<lambda>w. w \<in> set (map toLowerCase commonTechKeywords)" a b ?ws]
        Pa Pb L by blast
  qed
  from a b c c' d show ?thesis by blast
qed

theorem keyword_extraction_witness:
  "match_words (toLowerCase repeating_job) =
     [''python'', ''react'', ''python'', ''node'', ''rest'', ''react'', ''again'']
   \<and> potentialKeywords repeating_job = [''python'', ''react'', ''rest'']
   \<and> distinct (potentialKeywords repeating_job)
   \<and> set (potentialKeywords repeating_job) =
       {w \<in> set (match_words (toLowerCase repeating_job)).
          w \<in> set (map toLowerCase commonTechKeywords)}"
  using keyword_extraction[of repeating_job] repeating_keywords(1,2) by blast

text \<open>
  \<^bold>\<open>C7.\<close> For every request that passes validation, the displayed skills, experience
  and projects sub-scores are the base section values multiplied by
  \<open>atsScore / 100\<close> and rounded, and the displayed \<open>roleAlignment\<close> is the base value
  itself. The product and the quotient are binary64 operations and the rounding is
  \<open>Math.round\<close>; the result is always an integer nearest to the exact product (at an
  exact tie the binary64 product may fall below it: 25 times 58 / 100 gives 14).
\<close>

theorem displayed_section_scores:
  assumes "analyzeResumeHandler env request = Inr response"
    and "resumeText (data request) = JString rt" "jobDescription (data request) = JString jd"
  shows "skills (sectionScores response) =
           Math_round (binary64 (of_int (skills (sectionScores' rt jd))
                                  * binary64 (of_int (atsScore response) / 100)))
       \<and> experience (sectionScores response) =
           Math_round (binary64 (of_int (experience (sectionScores' rt jd))
                                  * binary64 (of_int (atsScore response) / 100)))
       \<and> projects (sectionScores response) =
           Math_round (binary64 (of_int (projects (sectionScores' rt jd))
                                  * binary64 (of_int (atsScore response) / 100)))
       \<and> roleAlignment (sectionScores response) = roleAlignment (sectionScores' rt jd)
       \<and> \<bar>of_int (skills (sectionScores response))
            - (of_int (skills (sectionScores' rt jd)) * of_int (atsScore response) / 100 :: rat)\<bar>
           \<le> 1 / 2
       \<and> \<bar>of_int (experience (sectionScores response))
            - (of_int (experience (sectionScores' rt jd)) * of_int (atsScore response) / 100 :: rat)\<bar>
           \<le> 1 / 2
       \<and> \<bar>of_int (projects (sectionScores response))
            - (of_int (projects (sectionScores' rt jd)) * of_int (atsScore response) / 100 :: rat)\<bar>
           \<le> 1 / 2"
proof -
  note f = response_fields[OF handler_result[OF assms]]
  have fb: "0 \<le> finalAtsScore rt jd" "finalAtsScore rt jd \<le> 100"
    using finalAtsScore_bounds[of rt jd] by simp_all
  note n = scaled_nearest[OF sectionScores'_bounds(3,4) fb]
    scaled_nearest[OF sectionScores'_bounds(1,2) fb]
    scaled_nearest[OF sectionScores'_bounds(5,6) fb]
  show ?thesis
    unfolding f build_fields using n by (simp add: scaled_def)
qed

theorem displayed_section_scores_witness:
  "atsScore example_response = 58
   \<and> experience (sectionScores' example_resume example_job) = 25
   \<and> experience (sectionScores example_response) = 14
   \<and> skills (sectionScores example_response) = 20
   \<and> projects (sectionScores example_response) = 10
   \<and> roleAlignment (sectionScores example_response) = 5"
proof -
  note f = example_fields
  have a: "atsScore example_response = 58" by (simp add: f example_final)
  from displayed_section_scores[OF example_handler example_texts(1,2)]
  have "skills (sectionScores example_response) = scaled 35 58"
    "experience (sectionScores example_response) = scaled 25 58"
    "projects (sectionScores example_response) = scaled 18 58"
    "roleAlignment (sectionScores example_response) = 5"
    unfolding a example_sections scaled_def by simp_all
  with a example_sections(1) show ?thesis by (simp add: example_scaled)
qed

text \<open>
  \<^bold>\<open>C8.\<close> For every request that passes validation, \<open>improvementSuggestions\<close> has
  four entries, each fixed by a rule: the first names the first three missing keywords
  (in lower case; it is there also when none is missing, with an empty list); the
  second is the weak-or-missing-experience text when the experience value is below 20,
  that is when no experience header occurs, and the quantifiable-metrics text otherwise;
  the third asks for a "Projects" section when the projects value is below 10, that is
  when no projects header occurs; the fourth is always the contact-information text.
\<close>

theorem improvement_suggestions:
  assumes "analyzeResumeHandler env request = Inr response"
    and "resumeText (data request) = JString rt" "jobDescription (data request) = JString jd"
  shows "improvementSuggestions response =
           [''Increase your score by adding these missing keywords: ''
              @ join '', '' (take 3 (missingKeywords' rt jd)),
            (if some_included sections_experience (toLowerCase rt)
             then ''Strengthen your experience with more quantifiable metrics.''
             else ''Your experience section seems weak or missing. Add more professional history.''),
            (if some_included sections_projects (toLowerCase rt)
             then ''Good use of projects to demonstrate competency.''
             else ''Add a '' @ [CHR 0x22] @ ''Projects'' @ [CHR 0x22]
                  @ '' section to showcase practical applications of your skills.''),
            ''Ensure your contact information is at the very top for better parsing.'']
       \<and> missingKeywords response = map capitalize (missingKeywords' rt jd)
       \<and> (experience (sectionScores' rt jd) < 20
            \<longleftrightarrow> \<not> some_included sections_experience (toLowerCase rt))
       \<and> (projects (sectionScores' rt jd) < 10
            \<longleftrightarrow> \<not> some_included sections_projects (toLowerCase rt))"
proof -
  note f = response_fields[OF handler_result[OF assms]]
  show ?thesis
    unfolding f build_fields
    by (simp add: suggestion_keywords_def suggestion_experience_def suggestion_projects_def
          suggestion_contact_def sectionScores'_def resumeFullText_def)
qed

theorem improvement_suggestions_witness:
  "improvementSuggestions example_response =
     [''Increase your score by adding these missing keywords: react, docker, kubernetes'',
      ''Strengthen your experience with more quantifiable metrics.'',
      ''Good use of projects to demonstrate competency.'',
      ''Ensure your contact information is at the very top for better parsing.'']
   \<and> missingKeywords example_response = [''React'', ''Docker'', ''Kubernetes'', ''Graphql'']"
  using improvement_suggestions[OF example_handler example_texts(1,2)]
  unfolding example_keywords example_join example_capitalized
  by (simp add: example_included)

text \<open>
  \<^bold>\<open>C9.\<close> Two invocations that succeed on the same \<open>resumeText\<close> and
  \<open>jobDescription\<close> return the same \<open>atsScore\<close>, keyword lists, \<open>sectionScores\<close>,
  \<open>improvementSuggestions\<close> and \<open>optimizedBullets\<close>, whatever the user, the resume id,
  the clock and the outcome of the Firestore write of each invocation are.
\<close>

theorem scoring_deterministic:
  assumes "analyzeResumeHandler env1 request1 = Inr response1"
    and "analyzeResumeHandler env2 request2 = Inr response2"
    and "resumeText (data request1) = resumeText (data request2)"
    and "jobDescription (data request1) = jobDescription (data request2)"
  shows "atsScore response1 = atsScore response2
       \<and> requiredKeywords response1 = requiredKeywords response2
       \<and> matchedKeywords response1 = matchedKeywords response2
       \<and> missingKeywords response1 = missingKeywords response2
       \<and> weakKeywords response1 = weakKeywords response2
       \<and> sectionScores response1 = sectionScores response2
       \<and> improvementSuggestions response1 = improvementSuggestions response2
       \<and> optimizedBullets response1 = optimizedBullets response2"
proof -
  from assms(1) obtain rt jd where
    1: "resumeText (data request1) = JString rt" "jobDescription (data request1) = JString jd"
       "dynamicResult.truncate response1 = build_dynamicResult rt jd"
    by (rule handler_Inr)
  from 1 assms(3,4) have
    "resumeText (data request2) = JString rt" "jobDescription (data request2) = JString jd"
    by simp_all
  from handler_result[OF assms(2) this] 1(3)
  have "dynamicResult.truncate response1 = dynamicResult.truncate response2" by simp
  then show ?thesis
    using truncate_fields[of response1] truncate_fields[of response2] by metis
qed

theorem scoring_deterministic_witness:
  "analyzeResumeHandler example_environment example_request = Inr example_response
   \<and> analyzeResumeHandler other_environment other_request = Inr other_response
   \<and> metadata example_response \<noteq> metadata other_response
   \<and> analysisId example_response \<noteq> analysisId other_response
   \<and> atsScore example_response = atsScore other_response
   \<and> requiredKeywords example_response = requiredKeywords other_response
   \<and> matchedKeywords example_response = matchedKeywords other_response
   \<and> missingKeywords example_response = missingKeywords other_response
   \<and> weakKeywords example_response = weakKeywords other_response
   \<and> sectionScores example_response = sectionScores other_response
   \<and> improvementSuggestions example_response = improvementSuggestions other_response
   \<and> optimizedBullets example_response = optimizedBullets other_response"
proof -
  have m: "metadata example_response \<noteq> metadata other_response"
    "analysisId example_response \<noteq> analysisId other_response"
    by (simp_all add: example_response_def other_response_def dynamicResult.extend_def
          finalResponse.fields_def)
  from scoring_deterministic[OF example_handler other_handler]
  show ?thesis using m example_handler other_handler by (simp add: example_texts)
qed

text \<open>
  \<^bold>\<open>C10.\<close> For every request that passes validation, every entry of
  \<open>requiredKeywords\<close>, \<open>matchedKeywords\<close>, \<open>missingKeywords\<close> and \<open>weakKeywords\<close> consists of
  at least 4 word characters and nothing else; so the vocabulary entries that are
  shorter (Git, SQL, AWS, CSS, API) or contain a space, a dot or a slash (Node.js, CI/CD,
  REST API, Machine Learning) are in none of these lists.
\<close>

theorem keywords_are_tokens:
  assumes "analyzeResumeHandler env request = Inr response"
  shows "(\<forall>k \<in> set (requiredKeywords response) \<union> set (matchedKeywords response)
              \<union> set (missingKeywords response) \<union> set (weakKeywords response).
            4 \<le> length k \<and> list_all is_word_char k)
       \<and> (\<forall>k \<in> set [''Git'', ''SQL'', ''AWS'', ''CSS'', ''API'', ''Node.js'', ''CI/CD'',
                        ''REST API'', ''Machine Learning''].
            k \<notin> set (requiredKeywords response) \<and> k \<notin> set (matchedKeywords response)
            \<and> k \<notin> set (missingKeywords response) \<and> k \<notin> set (weakKeywords response))"
proof -
  from assms obtain rt jd where t: "dynamicResult.truncate response = build_dynamicResult rt jd"
    by (rule handler_Inr)
  note f = response_fields[OF t]
  have sub: "set (matchedKeywords' rt jd) \<subseteq> set (potentialKeywords jd)"
    "set (missingKeywords' rt jd) \<subseteq> set (potentialKeywords jd)"
    "set (take 2 (missingKeywords' rt jd)) \<subseteq> set (potentialKeywords jd)"
    using set_take_subset[of 2 "missingKeywords' rt jd"]
    by (auto simp: matchedKeywords'_def missingKeywords'_def)
  have tok: "4 \<le> length (capitalize w) \<and> list_all is_word_char (capitalize w)"
    if "w \<in> set (potentialKeywords jd)" for w
    using potentialKeywords_word[OF that] by (simp add: capitalize_word)
  have a: "\<forall>k \<in> set (requiredKeywords response) \<union> set (matchedKeywords response)
              \<union> set (missingKeywords response) \<union> set (weakKeywords response).
            4 \<le> length k \<and> list_all is_word_char k"
    unfolding f using sub tok by auto
  have b: "\<forall>k \<in> set [''Git'', ''SQL'', ''AWS'', ''CSS'', ''API'', ''Node.js'', ''CI/CD'',
                        ''REST API'', ''Machine Learning''].
            k \<notin> set (requiredKeywords response) \<and> k \<notin> set (matchedKeywords response)
            \<and> k \<notin> set (missingKeywords response) \<and> k \<notin> set (weakKeywords response)"
    using a excluded_names unfolding list_all_iff by blast
  from a b show ?thesis by blast
qed

theorem keywords_are_tokens_witness:
  "requiredKeywords (projr (analyzeResumeHandler example_environment
       (request_of_texts example_resume repeating_job))) = [''Python'', ''React'', ''Rest'']
   \<and> ''Git'' \<notin> set (requiredKeywords (projr (analyzeResumeHandler example_environment
       (request_of_texts example_resume repeating_job))))
   \<and> ''Node.js'' \<notin> set (requiredKeywords (projr (analyzeResumeHandler example_environment
       (request_of_texts example_resume repeating_job))))
   \<and> ''REST API'' \<notin> set (missingKeywords (projr (analyzeResumeHandler example_environment
       (request_of_texts example_resume repeating_job))))"
proof -
  let ?r = "projr (analyzeResumeHandler example_environment
       (request_of_texts example_resume repeating_job))"
  have t: "resumeText (data (request_of_texts example_resume repeating_job)) = JString example_resume"
    "jobDescription (data (request_of_texts example_resume repeating_job)) = JString repeating_job"
    by (simp_all add: request_of_texts_def)
  note f = response_fields[OF handler_result[OF repeating_handler t]]
  have r: "requiredKeywords ?r = [''Python'', ''React'', ''Rest'']"
    unfolding f repeating_keywords repeating_capitalized by simp
  from keywords_are_tokens[OF repeating_handler]
  have "''Git'' \<notin> set (requiredKeywords ?r)" "''Node.js'' \<notin> set (requiredKeywords ?r)"
    "''REST API'' \<notin> set (missingKeywords ?r)"
    by simp_all
  with r show ?thesis by blast
qed

end
